theory Spec2Isabelle
  imports Complex_Main
begin

section \<open>discord-purge: the bulk purge engine of \<^verbatim>\<open>src/main.go\<close>\<close>

text \<open>
  The development follows the program from its leaves. The ordering utility and the emoji
  formatting are pure functions. The request executor, the history scan and the two search
  walkers act on a world: the state of the remote service, which answers every request
  and may change with it, together with a record of the requests sent and the sleeps
  taken. Loops that only the remote service can end are given fuel. The orchestrator
  \<^verbatim>\<open>PurgeAll\<close> is modelled over the client methods it calls and keeps a record of
  these calls. Console output is left out everywhere.

  Go strings are byte sequences; they are modelled as \<^typ>\<open>string\<close>, a list of 8-bit
  characters, so \<^term>\<open>length\<close> is Go's \<^verbatim>\<open>len\<close> and comparison is byte-wise.
  A \<^verbatim>\<open>float64\<close> is a finite value, an infinity or \<^verbatim>\<open>NaN\<close>, and its arithmetic rounds.
\<close>

subsection \<open>Library functions the ordering utility calls\<close>

text \<open>
  \<^verbatim>\<open>strconv.ParseUint(s, 10, 64)\<close> of the Go standard library: the empty string is a
  syntax error, every byte must be a decimal digit (no sign, no underscore in an explicit
  base), and the first step whose value leaves the range of \<^verbatim>\<open>uint64\<close> is a range error.
  The callers only test \<^verbatim>\<open>err == nil\<close>, so both errors are \<^term>\<open>None\<close>. The value is
  a \<^typ>\<open>nat\<close> that the range check keeps at most \<^verbatim>\<open>1<<64 - 1\<close>.
\<close>

definition maxUint64 :: nat where
  "maxUint64 = 2 ^ 64 - 1"

definition isDigit :: "char \<Rightarrow> bool" where
  "isDigit c = (48 \<le> (of_char c :: nat) \<and> (of_char c :: nat) \<le> 57)"

fun parseUintFrom :: "nat \<Rightarrow> string \<Rightarrow> nat option" where
  "parseUintFrom n [] = Some n"
| "parseUintFrom n (c # cs) =
     (if isDigit c
      then (let n1 = n * 10 + (of_char c - 48)
            in if n1 > maxUint64 then None else parseUintFrom n1 cs)
      else None)"

definition ParseUint :: "string \<Rightarrow> nat option" where
  "ParseUint s = (if s = [] then None else parseUintFrom 0 s)"

text \<open>\<^verbatim>\<open>strconv.FormatUint(n, 10)\<close>: the decimal digits of \<open>n\<close>, most significant first.\<close>

fun FormatUint :: "nat \<Rightarrow> string" where
  "FormatUint n =
     (if n < 10 then [char_of (48 + n)]
      else FormatUint (n div 10) @ [char_of (48 + n mod 10)])"

declare FormatUint.simps [simp del]

text \<open>Go's \<^verbatim>\<open><\<close> on strings: lexicographic on the bytes.\<close>

fun stringLess :: "string \<Rightarrow> string \<Rightarrow> bool" where
  "stringLess [] [] = False"
| "stringLess [] (y # ys) = True"
| "stringLess (x # xs) [] = False"
| "stringLess (x # xs) (y # ys) =
     (if x = y then stringLess xs ys else (of_char x :: nat) < of_char y)"

subsection \<open>OrderingUtility: \<^verbatim>\<open>olderSnowflakeID\<close> and \<^verbatim>\<open>previousSnowflakeID\<close>\<close>

definition olderSnowflakeID :: "string \<Rightarrow> string \<Rightarrow> string" where
  "olderSnowflakeID currentOldest candidate =
     (if candidate = [] then currentOldest
      else if currentOldest = [] then candidate
      else (case (ParseUint currentOldest, ParseUint candidate) of
              (Some cur, Some cand) \<Rightarrow> if cand < cur then candidate else currentOldest
            | _ \<Rightarrow>
                if length candidate < length currentOldest then candidate
                else if length candidate > length currentOldest then currentOldest
                else if stringLess candidate currentOldest then candidate
                else currentOldest))"

definition previousSnowflakeID :: "string \<Rightarrow> string" where
  "previousSnowflakeID ident =
     (case ParseUint ident of
        None \<Rightarrow> ident
      | Some n \<Rightarrow> if n = 0 then ident else FormatUint (n - 1))"

text \<open>
  The comparison the specification names as the fallback, written from its words and
  not from the code: strings are compared by length first, then lexicographically, which
  is the order \<^term>\<open>lenlex\<close> of the list library over the order of the bytes. The
  candidate replaces the current oldest when it comes before it in this order.
\<close>

definition byteOrder :: "(char \<times> char) set" where
  "byteOrder = {(x, y). (of_char x :: nat) < of_char y}"

definition lengthThenLexOlder :: "string \<Rightarrow> string \<Rightarrow> string" where
  "lengthThenLexOlder currentOldest candidate =
     (if (candidate, currentOldest) \<in> lenlex byteOrder then candidate else currentOldest)"

subsection \<open>Emoji addressing: \<^verbatim>\<open>formatEmojiForURL\<close>\<close>

text \<open>
  \<^verbatim>\<open>EmojiInfo.ID\<close> is a \<^verbatim>\<open>*string\<close>: \<^term>\<open>None\<close> is the nil pointer of a unicode emoji.
\<close>

record EmojiInfo =
  emoji_ID :: "string option"
  emoji_Name :: string

text \<open>
  \<^verbatim>\<open>url.PathEscape\<close> of the Go standard library (\<^verbatim>\<open>escape\<close> in mode
  \<^verbatim>\<open>encodePathSegment\<close>): letters, digits and \<^verbatim>\<open>- _ . ~ $ & + = : @\<close> stay, every other
  byte becomes \<^verbatim>\<open>%XX\<close> with upper-case hexadecimal digits.
\<close>

definition shouldEscape :: "char \<Rightarrow> bool" where
  "shouldEscape c =
     (let n = (of_char c :: nat)
      in \<not> ((97 \<le> n \<and> n \<le> 122) \<or> (65 \<le> n \<and> n \<le> 90) \<or> (48 \<le> n \<and> n \<le> 57)
            \<or> c \<in> set ''-_.~'' \<or> c \<in> set ''$&+=:@''))"

definition upperhex :: "nat \<Rightarrow> char" where
  "upperhex d = (if d < 10 then char_of (48 + d) else char_of (55 + d))"

definition percentByte :: "char \<Rightarrow> string" where
  "percentByte c =
     [CHR ''%'', upperhex ((of_char c :: nat) div 16), upperhex ((of_char c :: nat) mod 16)]"

definition PathEscape :: "string \<Rightarrow> string" where
  "PathEscape s = concat (map (\<lambda>c. if shouldEscape c then percentByte c else [c]) s)"

definition formatEmojiForURL :: "EmojiInfo \<Rightarrow> string" where
  "formatEmojiForURL emoji =
     (case emoji_ID emoji of
        Some i \<Rightarrow> if i \<noteq> [] then emoji_Name emoji @ '':'' @ i else PathEscape (emoji_Name emoji)
      | None \<Rightarrow> PathEscape (emoji_Name emoji))"

subsection \<open>\<^verbatim>\<open>float64\<close>\<close>

text \<open>
  A \<^verbatim>\<open>float64\<close> is \<^verbatim>\<open>NaN\<close>, an infinity, or a finite value, which is modelled by the
  real number it denotes; the two zeros are one value, since the code never looks at the
  sign of a zero. \<^verbatim>\<open>strconv.ParseFloat\<close> returns \<^verbatim>\<open>NaN\<close> and the infinities with a nil
  error (for \<^verbatim>\<open>"NaN"\<close>, \<^verbatim>\<open>"Inf"\<close>, \<^verbatim>\<open>"-Infinity"\<close>), so a header can carry them.
\<close>

datatype float64 = NaN | NegInf | Finite real | PosInf

text \<open>Go's \<^verbatim>\<open><\<close> on \<^verbatim>\<open>float64\<close>: false whenever an operand is \<^verbatim>\<open>NaN\<close>.\<close>

fun fless :: "float64 \<Rightarrow> float64 \<Rightarrow> bool" where
  "fless (Finite x) (Finite y) = (x < y)"
| "fless (Finite x) PosInf = True"
| "fless NegInf (Finite y) = True"
| "fless NegInf PosInf = True"
| "fless x y = False"

text \<open>
  An arithmetic operation returns its exact result rounded to the nearest
  \<^verbatim>\<open>float64\<close>, ties going to the even significand (IEEE 754 binary64). The
  significand has 53 bits: in the binade of \<open>x\<close>, of exponent \<open>e\<close>, the values are the
  multiples of \<^verbatim>\<open>2^(e-52)\<close>; below the exponent \<open>-1022\<close> they are the multiples of
  \<^verbatim>\<open>2^(-1074)\<close>; and a rounded magnitude of \<^verbatim>\<open>2^1024\<close> or more is an infinity.
\<close>

definition roundHalfEven :: "real \<Rightarrow> int" where
  "roundHalfEven q =
     (let f = \<lfloor>q\<rfloor>
      in if q - of_int f < 1 / 2 then f
         else if 1 / 2 < q - of_int f then f + 1
         else if even f then f else f + 1)"

definition round64 :: "real \<Rightarrow> float64" where
  "round64 x =
     (if x = 0 then Finite 0
      else (let e = max \<lfloor>log 2 \<bar>x\<bar>\<rfloor> (- 1022);
                ulp = 2 powr (of_int e - 52);
                y = of_int (roundHalfEven (\<bar>x\<bar> / ulp)) * ulp
            in if 2 ^ 1024 \<le> y then (if x < 0 then NegInf else PosInf)
               else Finite (if x < 0 then - y else y)))"

text \<open>Go's \<^verbatim>\<open>+\<close> and \<^verbatim>\<open>*\<close> on \<^verbatim>\<open>float64\<close>.\<close>

fun fadd :: "float64 \<Rightarrow> float64 \<Rightarrow> float64" where
  "fadd (Finite x) (Finite y) = round64 (x + y)"
| "fadd NaN y = NaN"
| "fadd x NaN = NaN"
| "fadd PosInf NegInf = NaN"
| "fadd NegInf PosInf = NaN"
| "fadd PosInf y = PosInf"
| "fadd x PosInf = PosInf"
| "fadd NegInf y = NegInf"
| "fadd x NegInf = NegInf"

fun fmul :: "float64 \<Rightarrow> float64 \<Rightarrow> float64" where
  "fmul (Finite x) (Finite y) = round64 (x * y)"
| "fmul NaN y = NaN"
| "fmul x NaN = NaN"
| "fmul PosInf (Finite y) = (if y = 0 then NaN else if 0 < y then PosInf else NegInf)"
| "fmul NegInf (Finite y) = (if y = 0 then NaN else if 0 < y then NegInf else PosInf)"
| "fmul (Finite x) PosInf = (if x = 0 then NaN else if 0 < x then PosInf else NegInf)"
| "fmul (Finite x) NegInf = (if x = 0 then NaN else if 0 < x then NegInf else PosInf)"
| "fmul PosInf PosInf = PosInf"
| "fmul NegInf NegInf = PosInf"
| "fmul PosInf NegInf = NegInf"
| "fmul NegInf PosInf = NegInf"

text \<open>
  The conversion of a \<^verbatim>\<open>float64\<close> to an \<^verbatim>\<open>int64\<close>, as in \<^verbatim>\<open>time.Duration(f)\<close>: the
  fraction is discarded. When the value is \<^verbatim>\<open>NaN\<close>, infinite or outside the range of
  \<^verbatim>\<open>int64\<close>, the language leaves the result to the implementation: \<^term>\<open>None\<close>.
  Arithmetic on \<^verbatim>\<open>int64\<close> wraps around.
\<close>

definition int64 :: "float64 \<Rightarrow> int option" where
  "int64 f =
     (case f of
        Finite y \<Rightarrow>
          (let i = (if 0 \<le> y then \<lfloor>y\<rfloor> else \<lceil>y\<rceil>)
           in if - (2 ^ 63) \<le> i \<and> i < 2 ^ 63 then Some i else None)
      | _ \<Rightarrow> None)"

definition wrap64 :: "int \<Rightarrow> int" where
  "wrap64 i = (i + 2 ^ 63) mod 2 ^ 64 - 2 ^ 63"

text \<open>\<^verbatim>\<open>time.Millisecond\<close>: a \<^verbatim>\<open>time.Duration\<close> is an \<^verbatim>\<open>int64\<close> count of nanoseconds.\<close>

definition Millisecond :: int where
  "Millisecond = 1000000"

subsection \<open>Wire types\<close>

text \<open>
  The structs that \<^verbatim>\<open>encoding/json\<close> decodes into. Every field name carries the name of
  its struct, since record fields share one name space.
\<close>

record User =
  user_ID :: string
  user_Username :: string

record Reaction =
  reaction_Count :: int
  reaction_Me :: bool
  reaction_Emoji :: EmojiInfo

record Message =
  msg_ID :: string
  msg_Author :: User
  msg_ChannelID :: string
  msg_Hit :: bool
  msg_Reactions :: "Reaction list"

record SearchResult =
  sr_TotalResults :: int
  sr_Messages :: "Message list list"
  sr_Retry :: bool

text \<open>\<^verbatim>\<open>RetryAfter\<close> is a \<^verbatim>\<open>float64\<close> number of seconds.\<close>

record RateLimitResponse =
  rl_Message :: string
  rl_RetryAfter :: float64
  rl_Global :: bool

text \<open>
  A response body is a byte string that the code only ever reads through
  \<^verbatim>\<open>json.Unmarshal\<close>. It is modelled by what each decoding yields: \<^term>\<open>None\<close> when
  \<^verbatim>\<open>Unmarshal\<close> returns an error, the decoded struct otherwise.
\<close>

record body =
  asRateLimitResponse :: "RateLimitResponse option"
  asSearchResult :: "SearchResult option"
  asMessages :: "Message list option"

text \<open>
  A numeric response header, as \<^verbatim>\<open>resp.Header.Get\<close> and \<^verbatim>\<open>strconv.ParseFloat\<close> see it:
  \<open>Missing\<close> when \<^verbatim>\<open>Get\<close> returns the empty string, \<open>NotANumber\<close> when the value is
  non-empty and \<^verbatim>\<open>ParseFloat\<close> returns an error, \<open>Seconds x\<close> when it returns \<open>x\<close>
  and no error; \<open>x\<close> is then any \<^verbatim>\<open>float64\<close>, also \<^verbatim>\<open>NaN\<close> or an infinity.
\<close>

datatype header = Missing | NotANumber | Seconds float64

record response =
  StatusCode :: int
  RetryAfterHeader :: header
  ResetAfterHeader :: header
  Body :: body

text \<open>
  One round trip of \<^verbatim>\<open>http.NewRequest\<close> and \<^verbatim>\<open>c.httpClient.Do\<close>: \<open>NoRequest\<close> when
  \<^verbatim>\<open>NewRequest\<close> returns an error, \<open>NoResponse\<close> when \<^verbatim>\<open>Do\<close> does, \<open>Responded r\<close>
  otherwise. The remote service is a state machine over a state of type \<open>'w\<close>; the
  client holds it as its \<^verbatim>\<open>httpClient\<close>, which takes the method, the URL and the JSON body.
\<close>

datatype outcome = NoRequest | NoResponse | Responded response

record 'w DiscordClient =
  token :: string
  httpClient :: "string \<Rightarrow> string \<Rightarrow> string \<Rightarrow> 'w \<Rightarrow> outcome \<times> 'w"
  userID :: string
  username :: string

text \<open>
  The world the client acts on: the state of the remote service, the requests handed to
  \<^verbatim>\<open>Do\<close> so far (method, path, body) and the durations passed to \<^verbatim>\<open>time.Sleep\<close>, in
  nanoseconds; a duration is \<^term>\<open>None\<close> when it comes from a conversion whose result
  the language leaves open. The last two are a record of the effects and never read by
  the code.
\<close>

record 'w world =
  remote :: 'w
  sent :: "(string \<times> string \<times> string) list"
  slept :: "int option list"

definition time_Sleep :: "int option \<Rightarrow> 'w world \<Rightarrow> 'w world" where
  "time_Sleep d w = w\<lparr>slept := slept w @ [d]\<rparr>"

text \<open>A sleep of a constant number of milliseconds, \<^verbatim>\<open>time.Sleep(ms * time.Millisecond)\<close>.\<close>

definition sleep :: "int \<Rightarrow> 'w world \<Rightarrow> 'w world" where
  "sleep ms w = time_Sleep (Some (ms * Millisecond)) w"

datatype error =
    CreatingRequest
  | ExecutingRequest
  | StillRateLimited
  | SearchRequest error
  | SearchIndexNotReady
  | SearchReturnedHTTP int
  | SearchFallbackFailed int error
  | ParsingSearchResults
  | SearchRetriedTooOften
  | FetchingMessages error
  | FetchingMessagesHTTP int
  | ParsingMessages
  | HTTPStatus int

text \<open>The three results \<^verbatim>\<open>(body, status, err)\<close> of a request.\<close>

datatype reply = Failed error | Returned body int

definition apiBase :: string where
  "apiBase = ''https://discord.com/api/v9''"

text \<open>
  The pacing constants, in milliseconds: each is a multiple of \<^verbatim>\<open>time.Millisecond\<close> in
  the source.
\<close>

definition searchDelay :: int where "searchDelay = 350"
definition deleteDelay :: int where "deleteDelay = 350"
definition batchDelay :: int where "batchDelay = 350"
definition errorBackoffDelay :: int where "errorBackoffDelay = 1250"
definition maxSearchIndexWaits :: int where "maxSearchIndexWaits = 40"

subsection \<open>RequestExecutor: \<^verbatim>\<open>requestWithBody\<close>\<close>

text \<open>\<^verbatim>\<open>strings.Contains\<close>.\<close>

fun strings_Contains :: "string \<Rightarrow> string \<Rightarrow> bool" where
  "strings_Contains [] substr = (substr = [])"
| "strings_Contains (c # s) substr =
     (take (length substr) (c # s) = substr \<or> strings_Contains s substr)"

text \<open>
  The wait computed in the \<^verbatim>\<open>resp.StatusCode == 429\<close> branch, from \<^verbatim>\<open>waitTime := 5.0\<close>
  down to the value passed to \<^verbatim>\<open>time.Sleep\<close>.
\<close>

definition rateLimitWait :: "string \<Rightarrow> string \<Rightarrow> response \<Rightarrow> float64" where
  "rateLimitWait method path resp =
     (let waitTime = Finite 5;
          waitTime = (case RetryAfterHeader resp of
                        Seconds parsed \<Rightarrow> parsed
                      | _ \<Rightarrow> waitTime);
          waitTime = (case ResetAfterHeader resp of
                        Seconds parsed \<Rightarrow> if fless waitTime parsed then parsed else waitTime
                      | _ \<Rightarrow> waitTime);
          waitTime = (case asRateLimitResponse (Body resp) of
                        Some rl \<Rightarrow>
                          if fless (Finite 0) (rl_RetryAfter rl)
                          then (if fless waitTime (rl_RetryAfter rl) then rl_RetryAfter rl
                                else waitTime)
                          else waitTime
                      | None \<Rightarrow> waitTime);
          waitTime = fadd waitTime (Finite 1);
          waitTime = (if fless waitTime (Finite 2) then Finite 2 else waitTime);
          waitTime = (if method = ''GET''
                         \<and> strings_Contains path ''/users/@me/threads/archived/private''
                         \<and> fless waitTime (Finite 6)
                      then Finite 6 else waitTime)
      in waitTime)"

text \<open>
  The duration \<^verbatim>\<open>time.Duration(waitTime*1000) * time.Millisecond\<close> that the executor
  sleeps: the product is rounded as a \<^verbatim>\<open>float64\<close>, converted, and multiplied as an
  \<^verbatim>\<open>int64\<close>.
\<close>

definition rateLimitPause :: "float64 \<Rightarrow> int option" where
  "rateLimitPause waitTime =
     map_option (\<lambda>i. wrap64 (i * Millisecond)) (int64 (fmul waitTime (Finite 1000)))"

text \<open>The loop \<^verbatim>\<open>for attempt := 0; attempt < 5; attempt++\<close>.\<close>

function requestAttempts ::
  "'w DiscordClient \<Rightarrow> string \<Rightarrow> string \<Rightarrow> string \<Rightarrow> nat \<Rightarrow> 'w world \<Rightarrow> reply \<times> 'w world"
where
  "requestAttempts c method path jsonBody attempt w =
     (if attempt < 5 then
        (case httpClient c method (apiBase @ path) jsonBody (remote w) of
           (NoRequest, r) \<Rightarrow> (Failed CreatingRequest, w\<lparr>remote := r\<rparr>)
         | (NoResponse, r) \<Rightarrow>
             (Failed ExecutingRequest,
              w\<lparr>remote := r, sent := sent w @ [(method, path, jsonBody)]\<rparr>)
         | (Responded resp, r) \<Rightarrow>
             (let w1 = w\<lparr>remote := r, sent := sent w @ [(method, path, jsonBody)]\<rparr>
              in if 200 \<le> StatusCode resp \<and> StatusCode resp < 300
                 then (Returned (Body resp) (StatusCode resp), w1)
                 else if StatusCode resp = 429
                 then requestAttempts c method path jsonBody (attempt + 1)
                        (time_Sleep (rateLimitPause (rateLimitWait method path resp)) w1)
                 else (Returned (Body resp) (StatusCode resp), w1)))
      else (Failed StillRateLimited, w))"
  by pat_completeness auto
termination
  by (relation "measure (\<lambda>(c, method, path, jsonBody, attempt, w). 5 - attempt)") auto

declare requestAttempts.simps [simp del]

definition requestWithBody ::
  "'w DiscordClient \<Rightarrow> string \<Rightarrow> string \<Rightarrow> string \<Rightarrow> 'w world \<Rightarrow> reply \<times> 'w world"
where
  "requestWithBody c method path jsonBody w = requestAttempts c method path jsonBody 0 w"

definition request ::
  "'w DiscordClient \<Rightarrow> string \<Rightarrow> string \<Rightarrow> 'w world \<Rightarrow> reply \<times> 'w world"
where
  "request c method path w = requestWithBody c method path [] w"

subsection \<open>HistoryScanDeleter: \<^verbatim>\<open>iterateAndDeleteChannel\<close>\<close>

text \<open>
  Counters are Go \<^verbatim>\<open>int\<close>s that only ever count requests made; they are modelled as
  unbounded integers. The inner loop \<^verbatim>\<open>for _, msg := range messages\<close>:
\<close>

fun deleteAuthored ::
  "'w DiscordClient \<Rightarrow> string \<Rightarrow> Message list \<Rightarrow> int \<Rightarrow> 'w world \<Rightarrow> int \<times> 'w world"
where
  "deleteAuthored c channelID [] totalDeleted w = (totalDeleted, w)"
| "deleteAuthored c channelID (msg # msgs) totalDeleted w =
     (if user_ID (msg_Author msg) = userID c then
        (case request c ''DELETE'' (''/channels/'' @ channelID @ ''/messages/'' @ msg_ID msg) w of
           (Failed err, w1) \<Rightarrow>
             deleteAuthored c channelID msgs totalDeleted (sleep deleteDelay w1)
         | (Returned delBody delStatus, w1) \<Rightarrow>
             deleteAuthored c channelID msgs
               (if delStatus = 204 \<or> delStatus = 200 \<or> delStatus = 404
                then totalDeleted + 1 else totalDeleted)
               (sleep deleteDelay w1))
      else deleteAuthored c channelID msgs totalDeleted w)"

text \<open>
  The outer \<^verbatim>\<open>for\<close> loop has no bound of its own: a remote that keeps answering full
  pages keeps it running. It is given fuel, one unit per page; \<^term>\<open>None\<close> says that the
  fuel did not suffice, and a result \<open>Some ((count, err), w)\<close> is the pair the Go function
  returns together with the world it leaves.
\<close>

fun iterateAndDeleteLoop ::
  "nat \<Rightarrow> 'w DiscordClient \<Rightarrow> string \<Rightarrow> int \<Rightarrow> string \<Rightarrow> 'w world
     \<Rightarrow> ((int \<times> error option) \<times> 'w world) option"
where
  "iterateAndDeleteLoop 0 c channelID totalDeleted beforeID w = None"
| "iterateAndDeleteLoop (Suc fuel) c channelID totalDeleted beforeID w =
     (let path = ''/channels/'' @ channelID @ ''/messages?limit=100'';
          path = (if beforeID \<noteq> [] then path @ ''&before='' @ beforeID else path)
      in case request c ''GET'' path w of
           (Failed err, w1) \<Rightarrow> Some ((totalDeleted, Some (FetchingMessages err)), w1)
         | (Returned body status, w1) \<Rightarrow>
             if status = 403 then Some ((totalDeleted, None), w1)
             else if status \<noteq> 200
             then Some ((totalDeleted, Some (FetchingMessagesHTTP status)), w1)
             else (case asMessages body of
                     None \<Rightarrow> Some ((totalDeleted, Some ParsingMessages), w1)
                   | Some messages \<Rightarrow>
                       if length messages = 0 then Some ((totalDeleted, None), w1)
                       else (case deleteAuthored c channelID messages totalDeleted w1 of
                               (totalDeleted1, w2) \<Rightarrow>
                                 if length messages < 100
                                 then Some ((totalDeleted1, None), w2)
                                 else iterateAndDeleteLoop fuel c channelID totalDeleted1
                                        (msg_ID (last messages)) (sleep batchDelay w2))))"

definition iterateAndDeleteChannel ::
  "nat \<Rightarrow> 'w DiscordClient \<Rightarrow> string \<Rightarrow> 'w world \<Rightarrow> ((int \<times> error option) \<times> 'w world) option"
where
  "iterateAndDeleteChannel fuel c channelID w = iterateAndDeleteLoop fuel c channelID 0 [] w"

subsection \<open>SearchDeletionWalker: \<^verbatim>\<open>SearchGuildMessages\<close> and \<^verbatim>\<open>SearchDMMessages\<close>\<close>

text \<open>
  The variables of a walker that the loop over one page of hits reads and writes. The
  two maps \<^verbatim>\<open>map[string]bool\<close> only ever receive \<^verbatim>\<open>true\<close>; they are sets.
\<close>

record walker =
  totalDeleted :: int
  deletedThisRound :: int
  oldestHitID :: string
  seenInThisPage :: "string set"
  skippedMessageIDs :: "string set"

text \<open>
  The delete request for one hit and the chain \<^verbatim>\<open>if err != nil ... else if delStatus ...\<close>
  that interprets its outcome, ending with \<^verbatim>\<open>time.Sleep(deleteDelay)\<close>. Both walkers
  contain it; they differ in the channel of the path only.
\<close>

definition deleteHit ::
  "'w DiscordClient \<Rightarrow> string \<Rightarrow> Message \<Rightarrow> walker \<Rightarrow> 'w world \<Rightarrow> walker \<times> 'w world"
where
  "deleteHit c channelID msg st w =
     (case request c ''DELETE'' (''/channels/'' @ channelID @ ''/messages/'' @ msg_ID msg) w of
        (Failed err, w1) \<Rightarrow> (st, sleep deleteDelay (sleep errorBackoffDelay w1))
      | (Returned delBody delStatus, w1) \<Rightarrow>
          if delStatus = 204 \<or> delStatus = 200
          then (st\<lparr>totalDeleted := totalDeleted st + 1,
                   deletedThisRound := deletedThisRound st + 1\<rparr>,
                sleep deleteDelay w1)
          else if delStatus = 404
          then (st\<lparr>deletedThisRound := deletedThisRound st + 1,
                   skippedMessageIDs := insert (msg_ID msg) (skippedMessageIDs st)\<rparr>,
                sleep deleteDelay w1)
          else if delStatus = 403
          then (st\<lparr>skippedMessageIDs := insert (msg_ID msg) (skippedMessageIDs st)\<rparr>,
                sleep deleteDelay w1)
          else if delStatus = 400
          then (st\<lparr>skippedMessageIDs := insert (msg_ID msg) (skippedMessageIDs st)\<rparr>,
                sleep deleteDelay (sleep errorBackoffDelay w1))
          else (st, sleep deleteDelay (sleep errorBackoffDelay w1)))"

text \<open>The body of \<^verbatim>\<open>for _, msg := range msgGroup\<close> in \<^verbatim>\<open>SearchGuildMessages\<close>.\<close>

definition guildHit ::
  "'w DiscordClient \<Rightarrow> Message \<Rightarrow> walker \<Rightarrow> 'w world \<Rightarrow> walker \<times> 'w world"
where
  "guildHit c msg st w =
     (if user_ID (msg_Author msg) = userID c \<and> msg_Hit msg then
        (let st1 = st\<lparr>oldestHitID := olderSnowflakeID (oldestHitID st) (msg_ID msg)\<rparr>
         in if msg_ID msg = [] \<or> msg_ID msg \<in> seenInThisPage st1
               \<or> msg_ID msg \<in> skippedMessageIDs st1
            then (st1, w)
            else (let st2 = st1\<lparr>seenInThisPage := insert (msg_ID msg) (seenInThisPage st1)\<rparr>
                  in if msg_ChannelID msg = []
                     then (st2\<lparr>skippedMessageIDs :=
                                  insert (msg_ID msg) (skippedMessageIDs st2)\<rparr>, w)
                     else deleteHit c (msg_ChannelID msg) msg st2 w))
      else (st, w))"

fun guildGroup ::
  "'w DiscordClient \<Rightarrow> Message list \<Rightarrow> walker \<Rightarrow> 'w world \<Rightarrow> walker \<times> 'w world"
where
  "guildGroup c [] st w = (st, w)"
| "guildGroup c (msg # msgs) st w =
     (case guildHit c msg st w of (st1, w1) \<Rightarrow> guildGroup c msgs st1 w1)"

fun guildPage ::
  "'w DiscordClient \<Rightarrow> Message list list \<Rightarrow> walker \<Rightarrow> 'w world \<Rightarrow> walker \<times> 'w world"
where
  "guildPage c [] st w = (st, w)"
| "guildPage c (msgGroup # groups) st w =
     (case guildGroup c msgGroup st w of (st1, w1) \<Rightarrow> guildPage c groups st1 w1)"

text \<open>The same loops in \<^verbatim>\<open>SearchDMMessages\<close>, which deletes in the channel it walks.\<close>

definition dmHit ::
  "'w DiscordClient \<Rightarrow> string \<Rightarrow> Message \<Rightarrow> walker \<Rightarrow> 'w world \<Rightarrow> walker \<times> 'w world"
where
  "dmHit c channelID msg st w =
     (if user_ID (msg_Author msg) = userID c \<and> msg_Hit msg then
        (let st1 = st\<lparr>oldestHitID := olderSnowflakeID (oldestHitID st) (msg_ID msg)\<rparr>
         in if msg_ID msg = [] \<or> msg_ID msg \<in> seenInThisPage st1
               \<or> msg_ID msg \<in> skippedMessageIDs st1
            then (st1, w)
            else deleteHit c channelID msg
                   (st1\<lparr>seenInThisPage := insert (msg_ID msg) (seenInThisPage st1)\<rparr>) w)
      else (st, w))"

fun dmGroup ::
  "'w DiscordClient \<Rightarrow> string \<Rightarrow> Message list \<Rightarrow> walker \<Rightarrow> 'w world \<Rightarrow> walker \<times> 'w world"
where
  "dmGroup c channelID [] st w = (st, w)"
| "dmGroup c channelID (msg # msgs) st w =
     (case dmHit c channelID msg st w of (st1, w1) \<Rightarrow> dmGroup c channelID msgs st1 w1)"

fun dmPage ::
  "'w DiscordClient \<Rightarrow> string \<Rightarrow> Message list list \<Rightarrow> walker \<Rightarrow> 'w world \<Rightarrow> walker \<times> 'w world"
where
  "dmPage c channelID [] st w = (st, w)"
| "dmPage c channelID (msgGroup # groups) st w =
     (case dmGroup c channelID msgGroup st w of (st1, w1) \<Rightarrow> dmPage c channelID groups st1 w1)"

text \<open>
  The walker's variables when the loop over a page of hits starts: \<^verbatim>\<open>deletedThisRound := 0\<close>,
  \<^verbatim>\<open>oldestHitID := ""\<close> and a fresh \<^verbatim>\<open>seenInThisPage\<close>.
\<close>

definition newPage :: "int \<Rightarrow> string set \<Rightarrow> walker" where
  "newPage deleted skipped =
     \<lparr>totalDeleted = deleted, deletedThisRound = 0, oldestHitID = [],
      seenInThisPage = {}, skippedMessageIDs = skipped\<rparr>"

text \<open>
  \<^verbatim>\<open>SearchDMMessages\<close>. The loop is given fuel, one unit per search request; what is left
  of it goes to the history scan when the walker falls back.
\<close>

definition dmSearchPath :: "'w DiscordClient \<Rightarrow> string \<Rightarrow> string \<Rightarrow> string" where
  "dmSearchPath c channelID maxID =
     (let path = ''/channels/'' @ channelID @ ''/messages/search?author_id='' @ userID c
                   @ ''&sort_by=timestamp&sort_order=desc''
      in if maxID \<noteq> [] then path @ ''&max_id='' @ maxID else path)"

fun SearchDMLoop ::
  "nat \<Rightarrow> 'w DiscordClient \<Rightarrow> string \<Rightarrow> int \<Rightarrow> int \<Rightarrow> string \<Rightarrow> string set \<Rightarrow> 'w world
     \<Rightarrow> ((int \<times> error option) \<times> 'w world) option"
where
  "SearchDMLoop 0 c channelID deleted indexWaitCount maxID skipped w = None"
| "SearchDMLoop (Suc fuel) c channelID deleted indexWaitCount maxID skipped w =
     (case request c ''GET'' (dmSearchPath c channelID maxID) w of
           (Failed err, w1) \<Rightarrow> Some ((deleted, Some (SearchRequest err)), w1)
         | (Returned body status, w1) \<Rightarrow>
             if status = 202 then
               (if indexWaitCount + 1 \<ge> maxSearchIndexWaits
                then Some ((deleted, Some SearchIndexNotReady), w1)
                else SearchDMLoop fuel c channelID deleted (indexWaitCount + 1) maxID skipped
                       (sleep 3000 w1))
             else if status = 403 \<or> status = 400 \<or> status = 404 then
               (case iterateAndDeleteChannel fuel c channelID w1 of
                  None \<Rightarrow> None
                | Some ((fallbackCount, fallbackErr), w2) \<Rightarrow>
                    Some ((deleted + fallbackCount, fallbackErr), w2))
             else if status \<noteq> 200 then
               (case iterateAndDeleteChannel fuel c channelID w1 of
                  None \<Rightarrow> None
                | Some ((fallbackCount, fallbackErr), w2) \<Rightarrow>
                    (case fallbackErr of
                       Some e \<Rightarrow>
                         Some ((deleted + fallbackCount, Some (SearchFallbackFailed status e)), w2)
                     | None \<Rightarrow> Some ((deleted + fallbackCount, None), w2)))
             else
               (case asSearchResult body of
                  None \<Rightarrow> Some ((deleted, Some ParsingSearchResults), w1)
                | Some result \<Rightarrow>
                    if sr_Retry result then
                      (if 0 + 1 \<ge> maxSearchIndexWaits
                       then Some ((deleted, Some SearchRetriedTooOften), w1)
                       else SearchDMLoop fuel c channelID deleted (0 + 1) maxID skipped
                              (sleep 3000 w1))
                    else if sr_TotalResults result = 0 \<or> length (sr_Messages result) = 0
                    then Some ((deleted, None), w1)
                    else
                      (case dmPage c channelID (sr_Messages result) (newPage deleted skipped) w1 of
                         (st, w2) \<Rightarrow>
                           if oldestHitID st = [] then Some ((totalDeleted st, None), w2)
                           else if previousSnowflakeID (oldestHitID st) = maxID
                           then Some ((totalDeleted st, None), w2)
                           else SearchDMLoop fuel c channelID (totalDeleted st) 0
                                  (previousSnowflakeID (oldestHitID st)) (skippedMessageIDs st)
                                  (sleep searchDelay w2))))"

definition SearchDMMessages ::
  "nat \<Rightarrow> 'w DiscordClient \<Rightarrow> string \<Rightarrow> 'w world \<Rightarrow> ((int \<times> error option) \<times> 'w world) option"
where
  "SearchDMMessages fuel c channelID w = SearchDMLoop fuel c channelID 0 0 [] {} w"

text \<open>
  The \<^verbatim>\<open>for\<close> loop of \<^verbatim>\<open>SearchGuildMessages\<close>, up to the point where it is left: by a
  \<^verbatim>\<open>return\<close> with a count and an error, or by a \<^verbatim>\<open>break\<close> with the count so far.
  What follows a \<^verbatim>\<open>break\<close> in the source, the deep scan of a guild in which the search
  deleted nothing, is outside this model.
\<close>

datatype loopEnd = Return int "error option" | Break int

definition guildSearchPath :: "'w DiscordClient \<Rightarrow> string \<Rightarrow> string \<Rightarrow> string" where
  "guildSearchPath c guildID maxID =
     (let path = ''/guilds/'' @ guildID @ ''/messages/search?author_id='' @ userID c
                   @ ''&include_nsfw=true&sort_by=timestamp&sort_order=desc''
      in if maxID \<noteq> [] then path @ ''&max_id='' @ maxID else path)"

fun SearchGuildLoop ::
  "nat \<Rightarrow> 'w DiscordClient \<Rightarrow> string \<Rightarrow> int \<Rightarrow> int \<Rightarrow> string \<Rightarrow> string set \<Rightarrow> 'w world
     \<Rightarrow> (loopEnd \<times> 'w world) option"
where
  "SearchGuildLoop 0 c guildID deleted indexWaitCount maxID skipped w = None"
| "SearchGuildLoop (Suc fuel) c guildID deleted indexWaitCount maxID skipped w =
     (case request c ''GET'' (guildSearchPath c guildID maxID) w of
        (Failed err, w1) \<Rightarrow> Some (Return deleted (Some (SearchRequest err)), w1)
      | (Returned body status, w1) \<Rightarrow>
          if status = 202 then
            (if indexWaitCount + 1 \<ge> maxSearchIndexWaits
             then Some (Return deleted (Some SearchIndexNotReady), w1)
             else SearchGuildLoop fuel c guildID deleted (indexWaitCount + 1) maxID skipped
                    (sleep 3000 w1))
          else if status = 403 then Some (Return deleted None, w1)
          else if status \<noteq> 200 then Some (Return deleted (Some (SearchReturnedHTTP status)), w1)
          else
            (case asSearchResult body of
               None \<Rightarrow> Some (Return deleted (Some ParsingSearchResults), w1)
             | Some result \<Rightarrow>
                 if sr_Retry result then
                   (if 0 + 1 \<ge> maxSearchIndexWaits
                    then Some (Return deleted (Some SearchRetriedTooOften), w1)
                    else SearchGuildLoop fuel c guildID deleted (0 + 1) maxID skipped
                           (sleep 3000 w1))
                 else if sr_TotalResults result = 0 \<or> length (sr_Messages result) = 0
                 then Some (Break deleted, w1)
                 else
                   (case guildPage c (sr_Messages result) (newPage deleted skipped) w1 of
                      (st, w2) \<Rightarrow>
                        if oldestHitID st = [] then Some (Break (totalDeleted st), w2)
                        else if previousSnowflakeID (oldestHitID st) = maxID
                        then Some (Break (totalDeleted st), w2)
                        else SearchGuildLoop fuel c guildID (totalDeleted st) 0
                               (previousSnowflakeID (oldestHitID st)) (skippedMessageIDs st)
                               (sleep searchDelay w2))))"

text \<open>
  A remote service that answers from a fixed list of outcomes, whatever is asked, and
  whose connection fails once the list is used up. Every finite run of the client
  against any service is a run against such a script.
\<close>

definition scripted :: "string \<Rightarrow> string \<Rightarrow> string \<Rightarrow> outcome list \<Rightarrow> outcome \<times> outcome list" where
  "scripted method url jsonBody script =
     (case script of [] \<Rightarrow> (NoResponse, []) | x # rest \<Rightarrow> (x, rest))"

definition scriptedClient :: "string \<Rightarrow> outcome list DiscordClient" where
  "scriptedClient me =
     \<lparr>token = ''token'', httpClient = scripted, userID = me, username = ''me''\<rparr>"

definition emptyBody :: body where
  "emptyBody = \<lparr>asRateLimitResponse = None, asSearchResult = None, asMessages = None\<rparr>"

definition plainResponse :: "int \<Rightarrow> response" where
  "plainResponse code =
     \<lparr>StatusCode = code, RetryAfterHeader = Missing, ResetAfterHeader = Missing,
      Body = emptyBody\<rparr>"




subsection \<open>PurgeOrchestrator: \<^verbatim>\<open>PurgeAll\<close>\<close>

record Guild =
  guild_ID :: string
  guild_Name :: string

record Channel =
  chan_ID :: string
  chan_Type :: int
  chan_Name :: string
  chan_Recipients :: "User list"

record Relationship =
  rel_ID :: string
  rel_Type :: int
  rel_User :: User

record ServerStat =
  stat_GuildID :: string
  stat_GuildName :: string
  stat_Messages :: int
  stat_Reactions :: int

text \<open>
  \<^verbatim>\<open>PurgeStats\<close> without \<^verbatim>\<open>TimeElapsed\<close>, which is read from the clock.
\<close>

record PurgeStats =
  TotalMessagesDeleted :: int
  TotalReactionsRemoved :: int
  TotalDMMessagesDeleted :: int
  ServerStats :: "ServerStat list"
  DMChannelsProcessed :: nat

text \<open>
  The two exclusion maps are \<^verbatim>\<open>map[string]bool\<close>; each is modelled as an association
  list, read with \<^term>\<open>map_of\<close>. The nil map and the empty map are both the empty list,
  and \<^verbatim>\<open>len(m) > 0\<close> holds exactly when the list is not empty. A key that is absent reads
  as \<^verbatim>\<open>false\<close>.
\<close>

record PurgeOptions =
  ExcludedGuildIDs :: "(string \<times> bool) list"
  ExcludedDMChannelIDs :: "(string \<times> bool) list"

definition isGuildExcluded :: "PurgeOptions \<Rightarrow> string \<Rightarrow> bool" where
  "isGuildExcluded options guildID = (map_of (ExcludedGuildIDs options) guildID = Some True)"

definition isDMExcluded :: "PurgeOptions \<Rightarrow> string \<Rightarrow> bool" where
  "isDMExcluded options channelID = (map_of (ExcludedDMChannelIDs options) channelID = Some True)"

text \<open>
  \<^verbatim>\<open>PurgeAll\<close> is verified against the methods of the client that it calls, each one a
  function from the world before the call to its results and the world after it. What
  is proved of \<^verbatim>\<open>PurgeAll\<close> holds whatever these methods return, so also for the methods
  modelled above; a run in which one of them does not return is a run that stops inside
  that call. \<^verbatim>\<open>OpenDMChannel\<close> returns a pointer that is nil exactly when the error is
  not: it is a sum.
\<close>

record 'w clientMethods =
  m_GetAllGuilds :: "'w world \<Rightarrow> (Guild list \<times> error option) \<times> 'w world"
  m_GetDMChannels :: "'w world \<Rightarrow> (Channel list \<times> error option) \<times> 'w world"
  m_GetRelationships :: "'w world \<Rightarrow> (Relationship list \<times> error option) \<times> 'w world"
  m_OpenDMChannel :: "string \<Rightarrow> 'w world \<Rightarrow> (error + Channel) \<times> 'w world"
  m_LoadDataPackageChannelIDs :: "string \<Rightarrow> 'w world \<Rightarrow> (string list \<times> error option) \<times> 'w world"
  m_SearchGuildMessages :: "string \<Rightarrow> 'w world \<Rightarrow> (int \<times> error option) \<times> 'w world"
  m_SearchDMMessages :: "string \<Rightarrow> 'w world \<Rightarrow> (int \<times> error option) \<times> 'w world"
  m_iterateAndDeleteChannel :: "string \<Rightarrow> 'w world \<Rightarrow> (int \<times> error option) \<times> 'w world"
  m_discoverAllGuildChannelsAndThreads :: "string \<Rightarrow> 'w world \<Rightarrow> string list \<times> 'w world"
  m_removeReactionsFromChannel :: "string \<Rightarrow> 'w world \<Rightarrow> int \<times> 'w world"

text \<open>The calls \<^verbatim>\<open>PurgeAll\<close> makes, with the identifier each is made on.\<close>

datatype call =
    Call_GetAllGuilds
  | Call_GetDMChannels
  | Call_GetRelationships
  | Call_OpenDMChannel string
  | Call_LoadDataPackageChannelIDs string
  | Call_SearchGuildMessages string
  | Call_SearchDMMessages string
  | Call_iterateAndDeleteChannel string
  | Call_discoverAllGuildChannelsAndThreads string
  | Call_removeReactionsFromChannel string

text \<open>
  The local variables of \<^verbatim>\<open>PurgeAll\<close>, the world, and the calls made so far in their
  order; the last is a record of the run that the code does not have.
  \<^verbatim>\<open>processedDMs\<close> is a \<^verbatim>\<open>map[string]bool\<close> that only receives \<^verbatim>\<open>true\<close>; it is
  modelled by the list of its keys, each key once, in the order they were added. The
  order in which Go's \<^verbatim>\<open>range\<close> visits the keys of a map is not specified, and nothing
  below depends on it.
\<close>

record 'w purge =
  now :: "'w world"
  calls :: "call list"
  purgeDeleted :: int
  totalReactionsRemoved :: int
  totalDMMessages :: int
  processedDMs :: "string list"
  serverStats :: "ServerStat list"
  guilds :: "Guild list"

text \<open>\<^verbatim>\<open>processedDMs[k] = true\<close>.\<close>

definition markProcessed :: "string \<Rightarrow> string list \<Rightarrow> string list" where
  "markProcessed k keys = (if k \<in> set keys then keys else keys @ [k])"

text \<open>Phase 1: \<^verbatim>\<open>for i, guild := range guilds\<close>, and the phase.\<close>

fun searchGuilds :: "'w clientMethods \<Rightarrow> Guild list \<Rightarrow> 'w purge \<Rightarrow> 'w purge" where
  "searchGuilds ms [] st = st"
| "searchGuilds ms (guild # rest) st =
     (let name = (if guild_Name guild = [] then guild_ID guild else guild_Name guild)
      in case m_SearchGuildMessages ms (guild_ID guild) (now st) of
           ((count, err), w1) \<Rightarrow>
             searchGuilds ms rest
               (st\<lparr>now := w1,
                   calls := calls st @ [Call_SearchGuildMessages (guild_ID guild)],
                   purgeDeleted := purgeDeleted st + count,
                   serverStats := serverStats st @
                     [\<lparr>stat_GuildID = guild_ID guild, stat_GuildName = name,
                       stat_Messages = count, stat_Reactions = 0\<rparr>]\<rparr>))"

definition phase1 :: "'w clientMethods \<Rightarrow> PurgeOptions \<Rightarrow> 'w purge \<Rightarrow> 'w purge" where
  "phase1 ms options st =
     (case m_GetAllGuilds ms (now st) of
        ((found, Some err), w1) \<Rightarrow>
          st\<lparr>now := w1, calls := calls st @ [Call_GetAllGuilds], guilds := []\<rparr>
      | ((found, None), w1) \<Rightarrow>
          (let filtered =
                 (if length (ExcludedGuildIDs options) > 0
                  then filter (\<lambda>guild. \<not> isGuildExcluded options (guild_ID guild)) found
                  else found)
           in searchGuilds ms filtered
                (st\<lparr>now := w1, calls := calls st @ [Call_GetAllGuilds],
                    guilds := filtered\<rparr>)))"

text \<open>Phase 2a: \<^verbatim>\<open>for i, ch := range channelsToProcess\<close>, and the phase.\<close>

fun searchOpenDMs :: "'w clientMethods \<Rightarrow> Channel list \<Rightarrow> 'w purge \<Rightarrow> 'w purge" where
  "searchOpenDMs ms [] st = st"
| "searchOpenDMs ms (ch # rest) st =
     (case m_SearchDMMessages ms (chan_ID ch) (now st) of
        ((count, err), w1) \<Rightarrow>
          searchOpenDMs ms rest
            (st\<lparr>now := w1,
                calls := calls st @ [Call_SearchDMMessages (chan_ID ch)],
                processedDMs := markProcessed (chan_ID ch) (processedDMs st),
                totalDMMessages := totalDMMessages st + count,
                purgeDeleted := purgeDeleted st + count\<rparr>))"

definition phase2a :: "'w clientMethods \<Rightarrow> PurgeOptions \<Rightarrow> 'w purge \<Rightarrow> 'w purge" where
  "phase2a ms options st =
     (case m_GetDMChannels ms (now st) of
        ((channels, Some err), w1) \<Rightarrow> st\<lparr>now := w1, calls := calls st @ [Call_GetDMChannels]\<rparr>
      | ((channels, None), w1) \<Rightarrow>
          (let channelsToProcess =
                 (if length (ExcludedDMChannelIDs options) > 0
                  then filter (\<lambda>ch. \<not> isDMExcluded options (chan_ID ch)) channels
                  else channels)
           in searchOpenDMs ms channelsToProcess
                (st\<lparr>now := w1, calls := calls st @ [Call_GetDMChannels]\<rparr>)))"

text \<open>Phase 2b: \<^verbatim>\<open>for _, rel := range rels\<close>, and the phase.\<close>

fun searchHiddenDMs ::
  "'w clientMethods \<Rightarrow> PurgeOptions \<Rightarrow> Relationship list \<Rightarrow> 'w purge \<Rightarrow> 'w purge"
where
  "searchHiddenDMs ms options [] st = st"
| "searchHiddenDMs ms options (rel # rest) st =
     (case m_OpenDMChannel ms (user_ID (rel_User rel)) (now st) of
        (opened, w1) \<Rightarrow>
          (let st1 = st\<lparr>now := w1,
                        calls := calls st @ [Call_OpenDMChannel (user_ID (rel_User rel))]\<rparr>
           in case opened of
                Inl err \<Rightarrow> searchHiddenDMs ms options rest st1
              | Inr ch \<Rightarrow>
                  if chan_ID ch \<in> set (processedDMs st1)
                  then searchHiddenDMs ms options rest st1
                  else if isDMExcluded options (chan_ID ch)
                  then searchHiddenDMs ms options rest st1
                  else (case m_SearchDMMessages ms (chan_ID ch) w1 of
                          ((count, err), w2) \<Rightarrow>
                            searchHiddenDMs ms options rest
                              (st1\<lparr>now := sleep 500 w2,
                                   calls := calls st1 @ [Call_SearchDMMessages (chan_ID ch)],
                                   processedDMs := markProcessed (chan_ID ch) (processedDMs st1),
                                   totalDMMessages := totalDMMessages st1 + count,
                                   purgeDeleted := purgeDeleted st1 + count\<rparr>))))"

definition phase2b :: "'w clientMethods \<Rightarrow> PurgeOptions \<Rightarrow> 'w purge \<Rightarrow> 'w purge" where
  "phase2b ms options st =
     (case m_GetRelationships ms (now st) of
        ((rels, Some err), w1) \<Rightarrow>
          st\<lparr>now := w1, calls := calls st @ [Call_GetRelationships]\<rparr>
      | ((rels, None), w1) \<Rightarrow>
          searchHiddenDMs ms options rels
            (st\<lparr>now := w1, calls := calls st @ [Call_GetRelationships]\<rparr>))"

text \<open>Phase 2c: \<^verbatim>\<open>for _, chID := range packageChannelIDs\<close>, and the phase.\<close>

fun searchPackageDMs ::
  "'w clientMethods \<Rightarrow> PurgeOptions \<Rightarrow> string list \<Rightarrow> 'w purge \<Rightarrow> 'w purge"
where
  "searchPackageDMs ms options [] st = st"
| "searchPackageDMs ms options (chID # rest) st =
     (if isDMExcluded options chID then searchPackageDMs ms options rest st
      else if chID \<in> set (processedDMs st) then searchPackageDMs ms options rest st
      else (case m_SearchDMMessages ms chID (now st) of
              ((count, err), w1) \<Rightarrow>
                (let st1 = st\<lparr>now := w1,
                              calls := calls st @ [Call_SearchDMMessages chID],
                              processedDMs := markProcessed chID (processedDMs st)\<rparr>
                 in case err of
                      None \<Rightarrow>
                        searchPackageDMs ms options rest
                          (st1\<lparr>totalDMMessages := totalDMMessages st1 + count,
                               purgeDeleted := purgeDeleted st1 + count\<rparr>)
                    | Some e \<Rightarrow>
                        (case m_iterateAndDeleteChannel ms chID w1 of
                           ((count2, err2), w2) \<Rightarrow>
                             searchPackageDMs ms options rest
                               (st1\<lparr>now := w2,
                                    calls := calls st1 @ [Call_iterateAndDeleteChannel chID],
                                    totalDMMessages := totalDMMessages st1 + count2,
                                    purgeDeleted := purgeDeleted st1 + count2\<rparr>)))))"

definition phase2c ::
  "'w clientMethods \<Rightarrow> string \<Rightarrow> PurgeOptions \<Rightarrow> 'w purge \<Rightarrow> 'w purge"
where
  "phase2c ms dataPackagePath options st =
     (if dataPackagePath \<noteq> [] then
        (case m_LoadDataPackageChannelIDs ms dataPackagePath (now st) of
           ((packageChannelIDs, Some err), w1) \<Rightarrow>
             st\<lparr>now := w1, calls := calls st @ [Call_LoadDataPackageChannelIDs dataPackagePath]\<rparr>
         | ((packageChannelIDs, None), w1) \<Rightarrow>
             searchPackageDMs ms options packageChannelIDs
               (st\<lparr>now := w1,
                   calls := calls st @ [Call_LoadDataPackageChannelIDs dataPackagePath]\<rparr>))
      else st)"

text \<open>Phase 3a: the reactions in the guilds that phase 1 kept.\<close>

fun sweepChannels ::
  "'w clientMethods \<Rightarrow> string list \<Rightarrow> int \<Rightarrow> 'w purge \<Rightarrow> int \<times> 'w purge"
where
  "sweepChannels ms [] reactions st = (reactions, st)"
| "sweepChannels ms (chID # rest) reactions st =
     (case m_removeReactionsFromChannel ms chID (now st) of
        (removed, w1) \<Rightarrow>
          sweepChannels ms rest (reactions + removed)
            (st\<lparr>now := w1, calls := calls st @ [Call_removeReactionsFromChannel chID]\<rparr>))"

text \<open>\<^verbatim>\<open>for i := range serverStats\<close>: the first entry of the guild gets the count.\<close>

fun setReactions :: "string \<Rightarrow> int \<Rightarrow> ServerStat list \<Rightarrow> ServerStat list" where
  "setReactions guildID n [] = []"
| "setReactions guildID n (stat # stats) =
     (if stat_GuildID stat = guildID then stat\<lparr>stat_Reactions := n\<rparr> # stats
      else stat # setReactions guildID n stats)"

fun sweepGuilds :: "'w clientMethods \<Rightarrow> Guild list \<Rightarrow> 'w purge \<Rightarrow> 'w purge" where
  "sweepGuilds ms [] st = st"
| "sweepGuilds ms (guild # rest) st =
     (case m_discoverAllGuildChannelsAndThreads ms (guild_ID guild) (now st) of
        (channelIDs, w1) \<Rightarrow>
          (case sweepChannels ms channelIDs 0
                  (st\<lparr>now := w1,
                      calls := calls st
                        @ [Call_discoverAllGuildChannelsAndThreads (guild_ID guild)]\<rparr>) of
             (guildReactions, st1) \<Rightarrow>
               sweepGuilds ms rest
                 (st1\<lparr>serverStats := setReactions (guild_ID guild) guildReactions (serverStats st1),
                      totalReactionsRemoved := totalReactionsRemoved st1 + guildReactions\<rparr>)))"

definition phase3a :: "'w clientMethods \<Rightarrow> 'w purge \<Rightarrow> 'w purge" where
  "phase3a ms st = sweepGuilds ms (guilds st) st"

text \<open>Phase 3b: \<^verbatim>\<open>for chID := range processedDMs\<close>.\<close>

definition phase3b :: "'w clientMethods \<Rightarrow> 'w purge \<Rightarrow> 'w purge" where
  "phase3b ms st =
     (case sweepChannels ms (processedDMs st) 0 st of
        (dmReactionCount, st1) \<Rightarrow>
          st1\<lparr>totalReactionsRemoved := totalReactionsRemoved st1 + dmReactionCount\<rparr>)"

definition startPurge :: "'w world \<Rightarrow> 'w purge" where
  "startPurge w =
     \<lparr>now = w, calls = [], purgeDeleted = 0, totalReactionsRemoved = 0, totalDMMessages = 0,
      processedDMs = [], serverStats = [], guilds = []\<rparr>"

text \<open>The state of \<^verbatim>\<open>PurgeAll\<close> when phases 1, 2a, 2b and 2c are done.\<close>

definition messagePhases ::
  "'w clientMethods \<Rightarrow> string \<Rightarrow> PurgeOptions \<Rightarrow> 'w world \<Rightarrow> 'w purge"
where
  "messagePhases ms dataPackagePath options w =
     phase2c ms dataPackagePath options
       (phase2b ms options (phase2a ms options (phase1 ms options (startPurge w))))"

definition PurgeAll ::
  "'w clientMethods \<Rightarrow> string \<Rightarrow> PurgeOptions \<Rightarrow> 'w world \<Rightarrow> PurgeStats \<times> 'w purge"
where
  "PurgeAll ms dataPackagePath options w =
     (let st = phase3b ms (phase3a ms (messagePhases ms dataPackagePath options w))
      in (\<lparr>TotalMessagesDeleted = purgeDeleted st,
           TotalReactionsRemoved = totalReactionsRemoved st,
           TotalDMMessagesDeleted = totalDMMessages st,
           ServerStats = serverStats st,
           DMChannelsProcessed = length (processedDMs st)\<rparr>, st))"

subsection \<open>Example inputs\<close>

text \<open>A history page with two messages of the caller, and the answers to their deletion.\<close>

definition exampleHistory :: "Message list" where
  "exampleHistory =
     [\<lparr>msg_ID = ''3'', msg_Author = \<lparr>user_ID = ''me'', user_Username = ''me''\<rparr>,
       msg_ChannelID = ''42'', msg_Hit = False, msg_Reactions = []\<rparr>,
      \<lparr>msg_ID = ''2'', msg_Author = \<lparr>user_ID = ''you'', user_Username = ''you''\<rparr>,
       msg_ChannelID = ''42'', msg_Hit = False, msg_Reactions = []\<rparr>,
      \<lparr>msg_ID = ''1'', msg_Author = \<lparr>user_ID = ''me'', user_Username = ''me''\<rparr>,
       msg_ChannelID = ''42'', msg_Hit = False, msg_Reactions = []\<rparr>]"

definition exampleHistoryRemote :: "outcome list" where
  "exampleHistoryRemote =
     [Responded ((plainResponse 200)\<lparr>Body := emptyBody\<lparr>asMessages := Some exampleHistory\<rparr>\<rparr>),
      Responded (plainResponse 204),
      Responded (plainResponse 404)]"

text \<open>Search hits of the caller, without and with a channel identifier.\<close>

definition hitWithoutChannel :: "string \<Rightarrow> Message" where
  "hitWithoutChannel ident =
     \<lparr>msg_ID = ident, msg_Author = \<lparr>user_ID = ''me'', user_Username = ''me''\<rparr>,
      msg_ChannelID = [], msg_Hit = True, msg_Reactions = []\<rparr>"

definition hitInChannel :: "string \<Rightarrow> string \<Rightarrow> Message" where
  "hitInChannel ident channel =
     \<lparr>msg_ID = ident, msg_Author = \<lparr>user_ID = ''me'', user_Username = ''me''\<rparr>,
      msg_ChannelID = channel, msg_Hit = True, msg_Reactions = []\<rparr>"

text \<open>
  Two invariants of the phases that delete messages. The first: \<^verbatim>\<open>processedDMs\<close> has no
  key twice and holds no excluded conversation, the conversations the walker was called
  on are exactly its keys, the history scan was only called on its keys, and the guild
  walker was never called on an excluded guild. The second counts: the walker was called
  once on every key and on nothing else, and the history scan at most once on a key.
\<close>

definition tidy :: "PurgeOptions \<Rightarrow> 'w purge \<Rightarrow> bool" where
  "tidy options st \<longleftrightarrow>
     distinct (processedDMs st)
     \<and> (\<forall>k \<in> set (processedDMs st). \<not> isDMExcluded options k)
     \<and> (\<forall>k. Call_SearchDMMessages k \<in> set (calls st) \<longleftrightarrow> k \<in> set (processedDMs st))
     \<and> (\<forall>k. Call_iterateAndDeleteChannel k \<in> set (calls st) \<longrightarrow> k \<in> set (processedDMs st))
     \<and> (\<forall>g. isGuildExcluded options g \<longrightarrow> Call_SearchGuildMessages g \<notin> set (calls st))"

definition once :: "'w purge \<Rightarrow> bool" where
  "once st \<longleftrightarrow>
     (\<forall>k. count_list (calls st) (Call_SearchDMMessages k)
            = (if k \<in> set (processedDMs st) then 1 else 0))
     \<and> (\<forall>k. count_list (calls st) (Call_iterateAndDeleteChannel k)
            \<le> (if k \<in> set (processedDMs st) then 1 else 0))"

text \<open>
  A client for examples. The caller is in the guilds \<open>G\<close> and \<open>H\<close>; the conversations \<open>A\<close>
  and \<open>B\<close> are open; the relationships lead to \<open>A\<close>, \<open>B\<close> and \<open>C\<close>; the data package lists
  \<open>A\<close>, \<open>B\<close> and \<open>D\<close>. The guild \<open>G\<close> and the conversation \<open>A\<close> are excluded. The second
  client lists the open conversation \<open>B\<close> twice.
\<close>

definition dm :: "string \<Rightarrow> Channel" where
  "dm k = \<lparr>chan_ID = k, chan_Type = 1, chan_Name = [], chan_Recipients = []\<rparr>"

definition related :: "string \<Rightarrow> Relationship" where
  "related uid =
     \<lparr>rel_ID = uid, rel_Type = 1, rel_User = \<lparr>user_ID = uid, user_Username = uid\<rparr>\<rparr>"

definition exampleMethods :: "unit clientMethods" where
  "exampleMethods =
     \<lparr>m_GetAllGuilds =
        (\<lambda>w. (([\<lparr>guild_ID = ''G'', guild_Name = ''g''\<rparr>,
                  \<lparr>guild_ID = ''H'', guild_Name = []\<rparr>], None), w)),
      m_GetDMChannels = (\<lambda>w. (([dm ''A'', dm ''B''], None), w)),
      m_GetRelationships =
        (\<lambda>w. (([related ''ua'', related ''ub'', related ''uc''], None), w)),
      m_OpenDMChannel =
        (\<lambda>uid w. (if uid = ''ua'' then Inr (dm ''A'')
                   else if uid = ''ub'' then Inr (dm ''B'')
                   else if uid = ''uc'' then Inr (dm ''C'')
                   else Inl (HTTPStatus 400), w)),
      m_LoadDataPackageChannelIDs = (\<lambda>path w. (([''A'', ''B'', ''D''], None), w)),
      m_SearchGuildMessages = (\<lambda>guildID w. ((1, None), w)),
      m_SearchDMMessages = (\<lambda>channelID w. ((2, None), w)),
      m_iterateAndDeleteChannel = (\<lambda>channelID w. ((0, None), w)),
      m_discoverAllGuildChannelsAndThreads = (\<lambda>guildID w. ([guildID @ ''-general''], w)),
      m_removeReactionsFromChannel = (\<lambda>channelID w. (1, w))\<rparr>"

definition repeatingMethods :: "unit clientMethods" where
  "repeatingMethods =
     exampleMethods\<lparr>m_GetDMChannels := (\<lambda>w. (([dm ''B'', dm ''B''], None), w))\<rparr>"

definition exampleOptions :: PurgeOptions where
  "exampleOptions =
     \<lparr>ExcludedGuildIDs = [(''G'', True)], ExcludedDMChannelIDs = [(''A'', True)]\<rparr>"

definition quiet :: "unit world" where
  "quiet = \<lparr>remote = (), sent = [], slept = []\<rparr>"

text \<open>
  The orchestrator over the walkers modelled above: the methods \<open>ms\<close> with the
  conversation walker and the history scan of the client \<open>c\<close>, run with the given fuel,
  in place of its own. Their results are read with \<^term>\<open>the\<close>, so nothing is said of a
  run in which the fuel does not suffice.
\<close>

definition withWalkers :: "nat \<Rightarrow> 'w DiscordClient \<Rightarrow> 'w clientMethods \<Rightarrow> 'w clientMethods" where
  "withWalkers fuel c ms =
     ms\<lparr>m_SearchDMMessages := (\<lambda>channelID w. the (SearchDMMessages fuel c channelID w)),
        m_iterateAndDeleteChannel :=
          (\<lambda>channelID w. the (iterateAndDeleteChannel fuel c channelID w))\<rparr>"

text \<open>
  A caller whose only guild is \<open>G\<close>, with the one channel \<open>42\<close>. No conversation is open
  and there are no relationships; the data package lists the channel \<open>42\<close>, in which the
  caller has written. The methods that list are given by what they return; the
  conversation walker and the history scan are the modelled ones, and send their
  requests to a remote that refuses the search in the channel and then serves its
  history. The guild \<open>G\<close> is excluded.
\<close>

definition packageMethods :: "outcome list clientMethods" where
  "packageMethods =
     withWalkers 2 (scriptedClient ''me'')
       \<lparr>m_GetAllGuilds = (\<lambda>w. (([\<lparr>guild_ID = ''G'', guild_Name = ''g''\<rparr>], None), w)),
        m_GetDMChannels = (\<lambda>w. (([], None), w)),
        m_GetRelationships = (\<lambda>w. (([], None), w)),
        m_OpenDMChannel = (\<lambda>uid w. (Inl (HTTPStatus 400), w)),
        m_LoadDataPackageChannelIDs = (\<lambda>path w. (([''42''], None), w)),
        m_SearchGuildMessages = (\<lambda>guildID w. ((0, None), w)),
        m_SearchDMMessages = (\<lambda>channelID w. ((0, None), w)),
        m_iterateAndDeleteChannel = (\<lambda>channelID w. ((0, None), w)),
        m_discoverAllGuildChannelsAndThreads =
          (\<lambda>guildID w. (if guildID = ''G'' then [''42''] else [], w)),
        m_removeReactionsFromChannel = (\<lambda>channelID w. (0, w))\<rparr>"

definition packageRemote :: "outcome list world" where
  "packageRemote =
     \<lparr>remote = Responded (plainResponse 403) # exampleHistoryRemote, sent = [], slept = []\<rparr>"

definition guildExcluded :: PurgeOptions where
  "guildExcluded = \<lparr>ExcludedGuildIDs = [(''G'', True)], ExcludedDMChannelIDs = []\<rparr>"

section \<open>Properties\<close>

subsection \<open>Parsing and printing cursors\<close>

lemma parseUintFrom_bound:
  "parseUintFrom n s = Some m \<Longrightarrow> n \<le> maxUint64 \<Longrightarrow> m \<le> maxUint64"
  by (induction s arbitrary: n) (auto simp: Let_def split: if_splits)

lemma ParseUint_bound: "ParseUint s = Some m \<Longrightarrow> m \<le> maxUint64"
  by (auto simp: ParseUint_def maxUint64_def split: if_splits dest!: parseUintFrom_bound)

lemma parseUintFrom_append:
  "parseUintFrom n (xs @ ys) =
     (case parseUintFrom n xs of None \<Rightarrow> None | Some v \<Rightarrow> parseUintFrom v ys)"
  by (induction xs arbitrary: n) (auto simp: Let_def)

lemma FormatUint_nonempty: "FormatUint n \<noteq> []"
  by (subst FormatUint.simps) simp

lemma isDigit_char_of: "(d::nat) < 10 \<Longrightarrow> isDigit (char_of (48 + d))"
  by (simp add: isDigit_def)

lemma parseUintFrom_digit:
  "(d::nat) < 10 \<Longrightarrow> parseUintFrom n [char_of (48 + d)] =
     (if n * 10 + d > maxUint64 then None else Some (n * 10 + d))"
  by (simp add: isDigit_char_of Let_def)

lemma parseUintFrom_FormatUint:
  "n \<le> maxUint64 \<Longrightarrow> parseUintFrom 0 (FormatUint n) = Some n"
proof (induction n rule: FormatUint.induct)
  case (1 n)
  show ?case
  proof (cases "n < 10")
    case True
    with "1.prems" show ?thesis
      by (subst FormatUint.simps) (simp add: isDigit_char_of Let_def)
  next
    case False
    have small: "n div 10 \<le> maxUint64" using "1.prems" by simp
    have ih: "parseUintFrom 0 (FormatUint (n div 10)) = Some (n div 10)"
      using "1.IH" [OF False small] .
    have digit: "n mod 10 < 10" by simp
    have recompose: "n div 10 * 10 + n mod 10 = n" by simp
    have step: "parseUintFrom (n div 10) [char_of (48 + n mod 10)] = Some n"
      using "1.prems" by (simp only: parseUintFrom_digit [OF digit] recompose) simp
    have unfold: "FormatUint n = FormatUint (n div 10) @ [char_of (48 + n mod 10)]"
      using False by (subst FormatUint.simps) simp
    show ?thesis
      by (simp only: unfold parseUintFrom_append ih option.case step)
  qed
qed

lemma ParseUint_FormatUint: "n \<le> maxUint64 \<Longrightarrow> ParseUint (FormatUint n) = Some n"
  by (simp add: ParseUint_def FormatUint_nonempty parseUintFrom_FormatUint)

lemma ParseUint_zero: "ParseUint ''0'' = Some 0"
  by (simp add: ParseUint_def isDigit_def maxUint64_def)

text \<open>
  C3. For all cursor pairs that both parse as non-negative integers,
  \<^verbatim>\<open>olderSnowflakeID a b\<close> returns the one with the smaller integer value (the current
  oldest \<open>a\<close> on a tie); for a cursor that parses as a positive integer,
  \<^verbatim>\<open>previousSnowflakeID\<close> returns the decimal string of its value minus one, which parses
  back to that value; and \<^verbatim>\<open>previousSnowflakeID "0"\<close> is \<^verbatim>\<open>"0"\<close>.
\<close>

theorem ordering_numeric:
  "(ParseUint a = Some m \<and> ParseUint b = Some n \<longrightarrow>
      olderSnowflakeID a b = (if n < m then b else a)
      \<and> ParseUint (olderSnowflakeID a b) = Some (min m n))
   \<and> (ParseUint x = Some k \<and> 0 < k \<longrightarrow>
        previousSnowflakeID x = FormatUint (k - 1)
        \<and> ParseUint (previousSnowflakeID x) = Some (k - 1))
   \<and> previousSnowflakeID ''0'' = ''0''"
proof (intro conjI impI)
  assume p: "ParseUint a = Some m \<and> ParseUint b = Some n"
  then have ne: "a \<noteq> []" "b \<noteq> []" by (auto simp: ParseUint_def)
  show older: "olderSnowflakeID a b = (if n < m then b else a)"
    using p ne by (simp add: olderSnowflakeID_def)
  show "ParseUint (olderSnowflakeID a b) = Some (min m n)"
    using p by (simp add: older min_def)
next
  assume p: "ParseUint x = Some k \<and> 0 < k"
  show prev: "previousSnowflakeID x = FormatUint (k - 1)"
    using p by (simp add: previousSnowflakeID_def)
  have "k - 1 \<le> maxUint64" using p ParseUint_bound [of x k] by simp
  then show "ParseUint (previousSnowflakeID x) = Some (k - 1)"
    by (simp add: prev ParseUint_FormatUint)
next
  show "previousSnowflakeID ''0'' = ''0''"
    by (simp add: previousSnowflakeID_def ParseUint_zero)
qed

theorem ordering_numeric_witness:
  "ParseUint ''100'' = Some 100 \<and> ParseUint ''99'' = Some 99
   \<and> olderSnowflakeID ''100'' ''99'' = ''99''
   \<and> ParseUint ''1000'' = Some 1000 \<and> previousSnowflakeID ''1000'' = ''999''"
proof -
  have p1: "ParseUint ''100'' = Some 100" and p2: "ParseUint ''99'' = Some 99"
    and p3: "ParseUint ''1000'' = Some 1000"
    by (simp_all add: ParseUint_def isDigit_def maxUint64_def)
  have f: "FormatUint 999 = ''999''"
    by code_simp
  show ?thesis
    using ordering_numeric [of "''100''" 100 "''99''" 99 "''1000''" 1000] p1 p2 p3 f
    by simp
qed

lemma stringLess_lexord: "stringLess xs ys \<longleftrightarrow> (xs, ys) \<in> lexord byteOrder"
  by (induction xs ys rule: stringLess.induct) (auto simp: byteOrder_def)

lemma stringLess_lex:
  "length xs = length ys \<Longrightarrow> stringLess xs ys \<longleftrightarrow> (xs, ys) \<in> lex byteOrder"
  by (induction xs ys rule: list_induct2) (auto simp: byteOrder_def)

lemma fallback_lenlex:
  "(if length b < length a then b
    else if length a < length b then a
    else if stringLess b a then b else a) = lengthThenLexOlder a b"
  by (auto simp: lengthThenLexOlder_def lenlex_conv stringLess_lex)

text \<open>
  C4, as amended. Both functions are defined on every string: \<^verbatim>\<open>olderSnowflakeID\<close> always
  returns one of its two arguments, and \<^verbatim>\<open>previousSnowflakeID\<close> returns a cursor that does
  not parse unchanged. An empty argument of \<^verbatim>\<open>olderSnowflakeID\<close> is answered before any
  comparison, and the other argument is returned. When both arguments are non-empty
  and at least one of them does not parse as an unsigned integer, the result is the one
  that the comparison by length first, then by lexicographic order of the bytes, selects.
\<close>

theorem ordering_malformed:
  "(olderSnowflakeID a b = a \<or> olderSnowflakeID a b = b)
   \<and> (b = [] \<longrightarrow> olderSnowflakeID a b = a)
   \<and> (a = [] \<longrightarrow> olderSnowflakeID a b = b)
   \<and> (a \<noteq> [] \<and> b \<noteq> [] \<and> (ParseUint a = None \<or> ParseUint b = None) \<longrightarrow>
        olderSnowflakeID a b = lengthThenLexOlder a b)
   \<and> (ParseUint x = None \<longrightarrow> previousSnowflakeID x = x)"
proof (intro conjI impI)
  show "olderSnowflakeID a b = a \<or> olderSnowflakeID a b = b"
    by (auto simp: olderSnowflakeID_def split: option.splits)
  show "olderSnowflakeID a b = a" if "b = []"
    using that by (simp add: olderSnowflakeID_def)
  show "olderSnowflakeID a b = b" if "a = []"
    using that by (simp add: olderSnowflakeID_def)
  show "olderSnowflakeID a b = lengthThenLexOlder a b"
    if "a \<noteq> [] \<and> b \<noteq> [] \<and> (ParseUint a = None \<or> ParseUint b = None)"
  proof -
    have "olderSnowflakeID a b =
            (if length b < length a then b
             else if length a < length b then a
             else if stringLess b a then b else a)"
      using that by (auto simp: olderSnowflakeID_def split: option.splits)
    then show ?thesis by (simp only: fallback_lenlex)
  qed
  show "previousSnowflakeID x = x" if "ParseUint x = None"
    using that by (simp add: previousSnowflakeID_def)
qed

theorem ordering_malformed_witness:
  "ParseUint ''abd'' = None
   \<and> olderSnowflakeID ''abd'' ''abc'' = ''abc'' \<and> olderSnowflakeID ''abc'' ''abd'' = ''abc''
   \<and> olderSnowflakeID ''abc'' ''12'' = ''12'' \<and> olderSnowflakeID [] ''abc'' = ''abc''
   \<and> olderSnowflakeID ''abd'' [] = ''abd'' \<and> previousSnowflakeID ''abd'' = ''abd''"
proof -
  have p: "ParseUint ''abd'' = None" "ParseUint ''abc'' = None"
    by (simp_all add: ParseUint_def isDigit_def)
  have l: "lengthThenLexOlder ''abd'' ''abc'' = ''abc''"
    "lengthThenLexOlder ''abc'' ''abd'' = ''abc''"
    "lengthThenLexOlder ''abc'' ''12'' = ''12''"
    by (simp_all add: lengthThenLexOlder_def Cons_lenlex_iff byteOrder_def)
  show ?thesis
    using ordering_malformed [of "''abd''" "''abc''" "''abd''"]
      ordering_malformed [of "''abc''" "''abd''" "''abd''"]
      ordering_malformed [of "''abc''" "''12''" "''abd''"]
      ordering_malformed [of "[]" "''abc''" "''abd''"]
      ordering_malformed [of "''abd''" "[]" "''abd''"] p l
    by simp
qed

text \<open>
  C4 as stated fails when an argument is empty: \<^verbatim>\<open>"abc"\<close> does not parse, the comparison
  by length selects the empty candidate, which is shorter, and the code returns
  \<^verbatim>\<open>"abc"\<close>. The search walkers do call it so, on a hit whose identifier is empty.
\<close>

theorem ordering_empty_counterexample:
  "ParseUint ''abc'' = None \<and> olderSnowflakeID ''abc'' [] = ''abc''
   \<and> lengthThenLexOlder ''abc'' [] = []"
  by (simp add: ParseUint_def isDigit_def olderSnowflakeID_def lengthThenLexOlder_def)

subsection \<open>Emoji addressing\<close>

lemma shouldEscape_high: "128 \<le> (of_char c :: nat) \<Longrightarrow> shouldEscape c"
  by (auto simp: shouldEscape_def Let_def)

lemma PathEscape_all_escaped:
  "\<forall>c \<in> set s. shouldEscape c \<Longrightarrow> PathEscape s = concat (map percentByte s)"
  by (induction s) (auto simp: PathEscape_def)

text \<open>
  C9. An emoji whose id is present and non-empty (a custom emoji) is formatted as its
  name, a colon and its id, with nothing percent-encoded. An emoji whose id is null (a
  unicode emoji) is formatted as the path-escaped name; when the name consists of
  non-ASCII bytes, as the UTF-8 encoding of an emoji character does, that is the
  sequence of \<^verbatim>\<open>%XX\<close> escapes of its bytes.
\<close>

theorem emoji_formatting:
  "(emoji_ID e = Some i \<and> i \<noteq> [] \<longrightarrow> formatEmojiForURL e = emoji_Name e @ '':'' @ i)
   \<and> (emoji_ID e = None \<longrightarrow>
        formatEmojiForURL e = PathEscape (emoji_Name e)
        \<and> ((\<forall>c \<in> set (emoji_Name e). 128 \<le> (of_char c :: nat)) \<longrightarrow>
             formatEmojiForURL e = concat (map percentByte (emoji_Name e))))"
  by (auto simp: formatEmojiForURL_def shouldEscape_high PathEscape_all_escaped)

theorem emoji_formatting_witness:
  "formatEmojiForURL \<lparr>emoji_ID = Some ''555'', emoji_Name = ''pepe''\<rparr> = ''pepe:555''
   \<and> formatEmojiForURL \<lparr>emoji_ID = None, emoji_Name = [CHR 0xF0, CHR 0x9F, CHR 0x91, CHR 0x8D]\<rparr>
       = ''%F0%9F%91%8D''"
proof -
  have custom:
    "formatEmojiForURL \<lparr>emoji_ID = Some ''555'', emoji_Name = ''pepe''\<rparr> = ''pepe:555''"
    using emoji_formatting [of "\<lparr>emoji_ID = Some ''555'', emoji_Name = ''pepe''\<rparr>" "''555''"]
    by simp
  have escaped: "PathEscape [CHR 0xF0, CHR 0x9F, CHR 0x91, CHR 0x8D] = ''%F0%9F%91%8D''"
    by code_simp
  have unicode:
    "formatEmojiForURL \<lparr>emoji_ID = None, emoji_Name = [CHR 0xF0, CHR 0x9F, CHR 0x91, CHR 0x8D]\<rparr>
       = ''%F0%9F%91%8D''"
    using emoji_formatting
      [of "\<lparr>emoji_ID = None, emoji_Name = [CHR 0xF0, CHR 0x9F, CHR 0x91, CHR 0x8D]\<rparr>"]
      escaped
    by simp
  show ?thesis using custom unicode by simp
qed

subsection \<open>RequestExecutor\<close>

lemma roundHalfEven_of_int: "roundHalfEven (of_int z) = z"
  by (simp add: roundHalfEven_def)



lemma round64_nonzero:
  "x \<noteq> 0 \<Longrightarrow> max \<lfloor>log 2 \<bar>x\<bar>\<rfloor> (- 1022) = e \<Longrightarrow> 2 powr (of_int e - 52) = u
   \<Longrightarrow> of_int (roundHalfEven (\<bar>x\<bar> / u)) * u = y
   \<Longrightarrow> round64 x = (if 2 ^ 1024 \<le> y then (if x < 0 then NegInf else PosInf)
                     else Finite (if x < 0 then - y else y))"
  by (auto simp: round64_def Let_def)

text \<open>An integer of less than 53 bits is a \<^verbatim>\<open>float64\<close>: rounding leaves it as it is.\<close>

lemma round64_of_int:
  assumes "\<bar>k\<bar> < 2 ^ 53"
  shows "round64 (of_int k) = Finite (of_int k)"
proof (cases "k = 0")
  case True
  then show ?thesis by (simp add: round64_def)
next
  case False
  let ?a = "\<bar>real_of_int k\<bar>"
  have a1: "1 \<le> ?a" using False by (simp flip: of_int_abs)
  have a2: "?a < 2 ^ 53" using assms by (simp flip: of_int_abs)
  have lo: "0 \<le> \<lfloor>log 2 ?a\<rfloor>" using a1 by (simp add: zero_le_log_cancel_iff)
  have "log 2 ?a < 53"
    using a1 a2 by (simp add: log_less_iff powr_realpow [of 2 53, simplified])
  then have hi: "\<lfloor>log 2 ?a\<rfloor> \<le> 52" by linarith
  define n where "n = nat (52 - \<lfloor>log 2 ?a\<rfloor>)"
  have e: "max \<lfloor>log 2 ?a\<rfloor> (- 1022) = \<lfloor>log 2 ?a\<rfloor>" using lo by simp
  have "real_of_int \<lfloor>log 2 ?a\<rfloor> - 52 = - real n" using hi by (simp add: n_def)
  then have ulp: "2 powr (real_of_int \<lfloor>log 2 ?a\<rfloor> - 52) = 1 / 2 ^ n"
    by (simp add: powr_minus_divide powr_realpow)
  have q: "?a / (1 / 2 ^ n) = real_of_int (\<bar>k\<bar> * 2 ^ n)" by simp
  have y: "real_of_int (roundHalfEven (?a / (1 / 2 ^ n))) * (1 / 2 ^ n) = ?a"
    by (simp only: q roundHalfEven_of_int) simp
  have small: "\<not> (2::real) ^ 1024 \<le> ?a"
  proof -
    have "(2::real) ^ 53 \<le> 2 ^ 1024" by (rule power_increasing) simp_all
    with a2 show ?thesis by linarith
  qed
  have nz: "real_of_int k \<noteq> 0" using False by simp
  have "round64 (of_int k) = Finite (if real_of_int k < 0 then - ?a else ?a)"
    using round64_nonzero [OF nz e ulp y] small by simp
  then show ?thesis by (simp add: abs_if)
qed


lemma round64_numeral:
  "\<bar>numeral k :: int\<bar> < 2 ^ 53 \<Longrightarrow> round64 (numeral k) = Finite (numeral k)"
  using round64_of_int [of "numeral k"] by simp












lemma requestAttempts_exhausted:
  "requestAttempts c m p b 5 w = (Failed StillRateLimited, w)"
  by (subst requestAttempts.simps) simp

lemma requestAttempts_429s:
  "httpClient c = scripted \<Longrightarrow> \<forall>r \<in> set rs. StatusCode r = 429 \<Longrightarrow> attempt + length rs \<le> 5 \<Longrightarrow>
   requestAttempts c m p b attempt \<lparr>remote = map Responded rs @ rest, sent = s, slept = z\<rparr>
     = requestAttempts c m p b (attempt + length rs)
         \<lparr>remote = rest, sent = s @ replicate (length rs) (m, p, b),
          slept = z @ map (\<lambda>r. rateLimitPause (rateLimitWait m p r)) rs\<rparr>"
proof (induction rs arbitrary: attempt s z)
  case Nil
  then show ?case by simp
next
  case (Cons r rs)
  have lt: "attempt < 5" using Cons.prems(3) by simp
  have st: "StatusCode r = 429" using Cons.prems(2) by simp
  have step: "requestAttempts c m p b attempt
                \<lparr>remote = map Responded (r # rs) @ rest, sent = s, slept = z\<rparr>
              = requestAttempts c m p b (attempt + 1)
                \<lparr>remote = map Responded rs @ rest, sent = s @ [(m, p, b)],
                 slept = z @ [rateLimitPause (rateLimitWait m p r)]\<rparr>"
    using lt st Cons.prems(1)
    by (subst requestAttempts.simps) (simp add: scripted_def time_Sleep_def)
  have "requestAttempts c m p b (attempt + 1)
                \<lparr>remote = map Responded rs @ rest, sent = s @ [(m, p, b)],
                 slept = z @ [rateLimitPause (rateLimitWait m p r)]\<rparr>
        = requestAttempts c m p b (attempt + 1 + length rs)
         \<lparr>remote = rest, sent = (s @ [(m, p, b)]) @ replicate (length rs) (m, p, b),
          slept = (z @ [rateLimitPause (rateLimitWait m p r)]) @ map (\<lambda>r. rateLimitPause (rateLimitWait m p r)) rs\<rparr>"
    using Cons.prems by (intro Cons.IH) auto
  with step show ?case by (simp add: replicate_append_same)
qed

lemma requestAttempts_answer:
  "httpClient c = scripted \<Longrightarrow> attempt < 5 \<Longrightarrow> StatusCode ok \<noteq> 429 \<Longrightarrow>
   requestAttempts c m p b attempt \<lparr>remote = Responded ok # rest, sent = s, slept = z\<rparr>
     = (Returned (Body ok) (StatusCode ok), \<lparr>remote = rest, sent = s @ [(m, p, b)], slept = z\<rparr>)"
  by (subst requestAttempts.simps) (simp add: scripted_def Let_def)

lemma requestAttempts_sent:
  "requestAttempts c m p b attempt w = (Failed StillRateLimited, w') \<Longrightarrow> attempt \<le> 5 \<Longrightarrow>
   length (sent w') = length (sent w) + (5 - attempt)"
proof (induction c m p b attempt w rule: requestAttempts.induct)
  case (1 c m p b attempt w)
  show ?case
  proof (cases "attempt < 5")
    case False
    with "1.prems" show ?thesis by (subst (asm) requestAttempts.simps) simp
  next
    case True
    show ?thesis
      using "1.prems" True "1.IH"
      apply (subst (asm) requestAttempts.simps)
      apply (auto simp: Let_def time_Sleep_def split: prod.splits outcome.splits if_splits)
      done
  qed
qed


lemma answered_after_429s:
  assumes sc: "httpClient c = scripted"
    and a: "length rs \<le> 4" "\<forall>r \<in> set rs. StatusCode r = 429" "StatusCode ok = 200"
  shows "requestWithBody c m p b
           \<lparr>remote = map Responded rs @ Responded ok # rest, sent = [], slept = []\<rparr>
         = (Returned (Body ok) 200,
            \<lparr>remote = rest, sent = replicate (length rs + 1) (m, p, b),
             slept = map (\<lambda>r. rateLimitPause (rateLimitWait m p r)) rs\<rparr>)"
proof -
  have "requestWithBody c m p b
        \<lparr>remote = map Responded rs @ Responded ok # rest, sent = [], slept = []\<rparr>
       = requestAttempts c m p b (0 + length rs)
         \<lparr>remote = Responded ok # rest, sent = [] @ replicate (length rs) (m, p, b),
          slept = [] @ map (\<lambda>r. rateLimitPause (rateLimitWait m p r)) rs\<rparr>"
    unfolding requestWithBody_def using a by (intro requestAttempts_429s [OF sc]) auto
  also have "\<dots> = (Returned (Body ok) (StatusCode ok),
         \<lparr>remote = rest, sent = ([] @ replicate (length rs) (m, p, b)) @ [(m, p, b)],
          slept = [] @ map (\<lambda>r. rateLimitPause (rateLimitWait m p r)) rs\<rparr>)"
    using a by (intro requestAttempts_answer [OF sc]) auto
  finally show ?thesis
    using a by (simp add: replicate_append_same)
qed

lemma failed_after_five_429s:
  assumes sc: "httpClient c = scripted"
    and a: "length rs = 5" "\<forall>r \<in> set rs. StatusCode r = 429"
  shows "requestWithBody c m p b
           \<lparr>remote = map Responded rs @ rest, sent = [], slept = []\<rparr>
         = (Failed StillRateLimited,
            \<lparr>remote = rest, sent = replicate 5 (m, p, b),
             slept = map (\<lambda>r. rateLimitPause (rateLimitWait m p r)) rs\<rparr>)"
proof -
  have "requestWithBody c m p b
        \<lparr>remote = map Responded rs @ rest, sent = [], slept = []\<rparr>
       = requestAttempts c m p b (0 + length rs)
         \<lparr>remote = rest, sent = [] @ replicate (length rs) (m, p, b),
          slept = [] @ map (\<lambda>r. rateLimitPause (rateLimitWait m p r)) rs\<rparr>"
    unfolding requestWithBody_def using a by (intro requestAttempts_429s [OF sc]) auto
  then show ?thesis
    using a by (simp add: requestAttempts_exhausted)
qed

text \<open>
  C2, as amended. The loop makes at most five attempts. When at most four consecutive 429
  responses are followed by a 200, the executor returns the 200 having made one call more
  than there were 429 responses (five calls after four of them) and having slept the wait
  of each 429. Five consecutive 429 responses are a hard failure after exactly five
  calls, whatever the remote would have answered next. And whenever the executor fails
  with the rate-limit error, against any remote, it has made exactly five calls.
\<close>

theorem rate_limit_budget:
  "(length rs \<le> 4 \<and> (\<forall>r \<in> set rs. StatusCode r = 429) \<and> StatusCode ok = 200 \<longrightarrow>
      requestWithBody (scriptedClient me) m p b
        \<lparr>remote = map Responded rs @ Responded ok # rest, sent = [], slept = []\<rparr>
      = (Returned (Body ok) 200,
         \<lparr>remote = rest, sent = replicate (length rs + 1) (m, p, b),
          slept = map (\<lambda>r. rateLimitPause (rateLimitWait m p r)) rs\<rparr>))
   \<and> (length rs = 5 \<and> (\<forall>r \<in> set rs. StatusCode r = 429) \<longrightarrow>
      requestWithBody (scriptedClient me) m p b
        \<lparr>remote = map Responded rs @ rest, sent = [], slept = []\<rparr>
      = (Failed StillRateLimited,
         \<lparr>remote = rest, sent = replicate 5 (m, p, b),
          slept = map (\<lambda>r. rateLimitPause (rateLimitWait m p r)) rs\<rparr>))
   \<and> (requestWithBody c m p b w = (Failed StillRateLimited, w') \<longrightarrow>
        length (sent w') = length (sent w) + 5)"
proof -
  have sc: "httpClient (scriptedClient me) = scripted" by (simp add: scriptedClient_def)
  show ?thesis
    using answered_after_429s [OF sc, of rs ok m p b rest]
      failed_after_five_429s [OF sc, of rs m p b rest]
      requestAttempts_sent [of c m p b 0 w w']
    by (simp add: requestWithBody_def)
qed

lemma plain_wait: "rateLimitPause (rateLimitWait m p (plainResponse 429)) = Some 6000000000"
  by (simp add: rateLimitWait_def plainResponse_def emptyBody_def Let_def round64_numeral
        rateLimitPause_def int64_def wrap64_def Millisecond_def)

theorem rate_limit_budget_witness:
  "requestWithBody (scriptedClient ''me'') ''GET'' ''/users/@me'' []
     \<lparr>remote = [Responded (plainResponse 429), Responded (plainResponse 429),
                Responded (plainResponse 429), Responded (plainResponse 429),
                Responded (plainResponse 200)],
      sent = [], slept = []\<rparr>
   = (Returned emptyBody 200,
      \<lparr>remote = [], sent = replicate 5 (''GET'', ''/users/@me'', []),
       slept = [Some 6000000000, Some 6000000000, Some 6000000000, Some 6000000000]\<rparr>)
   \<and> requestWithBody (scriptedClient ''me'') ''GET'' ''/users/@me'' []
     \<lparr>remote = [Responded (plainResponse 429), Responded (plainResponse 429),
                Responded (plainResponse 429), Responded (plainResponse 429),
                Responded (plainResponse 429), Responded (plainResponse 429)],
      sent = [], slept = []\<rparr>
   = (Failed StillRateLimited,
      \<lparr>remote = [Responded (plainResponse 429)],
       sent = replicate 5 (''GET'', ''/users/@me'', []),
       slept = [Some 6000000000, Some 6000000000, Some 6000000000, Some 6000000000,
                Some 6000000000]\<rparr>)
   \<and> length (replicate 5 (''GET'', ''/users/@me'', [])) = length ([] :: (string \<times> string \<times> string) list) + 5"
proof -
  let ?r = "plainResponse 429"
  have ok: "StatusCode (plainResponse 200) = 200" "Body (plainResponse 200) = emptyBody"
    and limited: "StatusCode ?r = 429"
    by (simp_all add: plainResponse_def)
  have five: "replicate 5 x = [x, x, x, x, x]" for x :: "string \<times> string \<times> string"
    by (simp add: numeral_eq_Suc)
  have first: "requestWithBody (scriptedClient ''me'') ''GET'' ''/users/@me'' []
     \<lparr>remote = [Responded ?r, Responded ?r, Responded ?r, Responded ?r,
                Responded (plainResponse 200)],
      sent = [], slept = []\<rparr>
   = (Returned emptyBody 200,
      \<lparr>remote = [], sent = replicate 5 (''GET'', ''/users/@me'', []),
       slept = [Some 6000000000, Some 6000000000, Some 6000000000, Some 6000000000]\<rparr>)"
    using rate_limit_budget [of "[?r, ?r, ?r, ?r]" "plainResponse 200"
        "''me''" "''GET''" "''/users/@me''" "[]" "[]", THEN conjunct1] ok limited
    by (simp add: plain_wait five)
  have second: "requestWithBody (scriptedClient ''me'') ''GET'' ''/users/@me'' []
     \<lparr>remote = [Responded ?r, Responded ?r, Responded ?r, Responded ?r, Responded ?r,
                Responded ?r],
      sent = [], slept = []\<rparr>
   = (Failed StillRateLimited,
      \<lparr>remote = [Responded ?r], sent = replicate 5 (''GET'', ''/users/@me'', []),
       slept = [Some 6000000000, Some 6000000000, Some 6000000000, Some 6000000000,
                Some 6000000000]\<rparr>)"
    using rate_limit_budget [of "[?r, ?r, ?r, ?r, ?r]" _
        "''me''" "''GET''" "''/users/@me''" "[]" "[Responded ?r]",
        THEN conjunct2, THEN conjunct1] limited
    by (simp add: plain_wait)
  have third:
    "length (sent \<lparr>remote = [Responded ?r], sent = replicate 5 (''GET'', ''/users/@me'', []),
                    slept = [Some 6000000000, Some 6000000000, Some 6000000000, Some 6000000000,
                Some 6000000000]\<rparr>)
     = length (sent \<lparr>remote = [Responded ?r, Responded ?r, Responded ?r, Responded ?r,
                                 Responded ?r, Responded ?r],
                       sent = [], slept = []\<rparr>) + 5"
    using rate_limit_budget [THEN conjunct2, THEN conjunct2, rule_format, OF second] .
  show ?thesis using first second third by simp
qed

text \<open>
  C2 as stated fails: after five consecutive 429 responses the executor does not make a
  sixth call. It returns the rate-limit error after five calls and the 200 that the
  remote holds ready is never requested.
\<close>

theorem rate_limit_six_calls_counterexample:
  "requestWithBody (scriptedClient ''me'') ''GET'' ''/users/@me'' []
     \<lparr>remote = [Responded (plainResponse 429), Responded (plainResponse 429),
                Responded (plainResponse 429), Responded (plainResponse 429),
                Responded (plainResponse 429), Responded (plainResponse 200)],
      sent = [], slept = []\<rparr>
   = (Failed StillRateLimited,
      \<lparr>remote = [Responded (plainResponse 200)],
       sent = replicate 5 (''GET'', ''/users/@me'', []),
       slept = [Some 6000000000, Some 6000000000, Some 6000000000, Some 6000000000,
                Some 6000000000]\<rparr>)"
proof -
  let ?r = "plainResponse 429"
  have sc: "httpClient (scriptedClient ''me'') = scripted" by (simp add: scriptedClient_def)
  have limited: "StatusCode ?r = 429" by (simp add: plainResponse_def)
  show ?thesis
    using failed_after_five_429s
      [OF sc, of "[?r, ?r, ?r, ?r, ?r]" "''GET''" "''/users/@me''" "[]"
         "[Responded (plainResponse 200)]"] limited
    by (simp add: plain_wait)
qed

subsection \<open>SearchDeletionWalker\<close>

lemma request_scripted:
  "httpClient c = scripted \<Longrightarrow> StatusCode r \<noteq> 429 \<Longrightarrow>
   request c m p \<lparr>remote = Responded r # rest, sent = s, slept = z\<rparr>
     = (Returned (Body r) (StatusCode r),
        \<lparr>remote = rest, sent = s @ [(m, p, [])], slept = z\<rparr>)"
  by (simp add: request_def requestWithBody_def requestAttempts_answer)

lemma fallback_unchanged:
  "(case x of None \<Rightarrow> None
    | Some ((fallbackCount, fallbackErr), w2) \<Rightarrow> Some ((0 + fallbackCount, fallbackErr), w2))
   = (x :: ((int \<times> error option) \<times> 'w world) option)"
  by (cases x) auto

text \<open>
  C8. When the search request of the conversation walker returns a status other than 200
  and 202, the walker runs the history scan on the same channel, from the world the
  search request left, and returns its own count so far plus the scan's count; the scan's
  error is passed on as it is after 403, 400 and 404 and wrapped after any other status.
  In particular, when the first search response is 403, \<^verbatim>\<open>SearchDMMessages\<close> returns what
  the history scan returns. A rate limit that outlasts the executor's budget is an error
  of the request, not a status, and ends the walker without a scan.
\<close>

theorem dm_search_falls_back:
  assumes "request c ''GET'' (dmSearchPath c channelID maxID) w = (Returned body status, w1)"
    and "status \<noteq> 200" and "status \<noteq> 202"
  shows "SearchDMLoop (Suc fuel) c channelID deleted indexWaitCount maxID skipped w =
           (case iterateAndDeleteChannel fuel c channelID w1 of
              None \<Rightarrow> None
            | Some ((fallbackCount, fallbackErr), w2) \<Rightarrow>
                Some ((deleted + fallbackCount,
                       if status = 403 \<or> status = 400 \<or> status = 404 then fallbackErr
                       else map_option (SearchFallbackFailed status) fallbackErr), w2))
         \<and> (maxID = [] \<and> status = 403 \<longrightarrow>
              SearchDMMessages (Suc fuel) c channelID w = iterateAndDeleteChannel fuel c channelID w1)"
proof
  show "SearchDMLoop (Suc fuel) c channelID deleted indexWaitCount maxID skipped w =
           (case iterateAndDeleteChannel fuel c channelID w1 of
              None \<Rightarrow> None
            | Some ((fallbackCount, fallbackErr), w2) \<Rightarrow>
                Some ((deleted + fallbackCount,
                       if status = 403 \<or> status = 400 \<or> status = 404 then fallbackErr
                       else map_option (SearchFallbackFailed status) fallbackErr), w2))"
    using assms by (auto split: option.splits)
  show "maxID = [] \<and> status = 403 \<longrightarrow>
          SearchDMMessages (Suc fuel) c channelID w = iterateAndDeleteChannel fuel c channelID w1"
    using assms by (auto simp: SearchDMMessages_def fallback_unchanged split: option.splits)
qed


lemma example_history_scan:
  "iterateAndDeleteChannel 1 (scriptedClient ''me'') ''42''
     \<lparr>remote = exampleHistoryRemote,
      sent = [(''GET'', dmSearchPath (scriptedClient ''me'') ''42'' [], [])], slept = []\<rparr>
   = Some ((2, None),
       \<lparr>remote = [],
        sent = [(''GET'', dmSearchPath (scriptedClient ''me'') ''42'' [], []),
                (''GET'', ''/channels/42/messages?limit=100'', []),
                (''DELETE'', ''/channels/42/messages/3'', []),
                (''DELETE'', ''/channels/42/messages/1'', [])],
        slept = [Some 350000000, Some 350000000]\<rparr>)"
proof -
  have sc: "httpClient (scriptedClient ''me'') = scripted" by (simp add: scriptedClient_def)
  have me: "userID (scriptedClient ''me'') = ''me''" by (simp add: scriptedClient_def)
  show ?thesis
    by (simp add: iterateAndDeleteChannel_def exampleHistoryRemote_def exampleHistory_def
          request_scripted [OF sc] me plainResponse_def emptyBody_def sleep_def time_Sleep_def
          Millisecond_def deleteDelay_def)
qed

theorem dm_search_falls_back_witness:
  "SearchDMMessages 2 (scriptedClient ''me'') ''42''
     \<lparr>remote = Responded (plainResponse 403) # exampleHistoryRemote, sent = [], slept = []\<rparr>
   = Some ((2, None),
       \<lparr>remote = [],
        sent = [(''GET'', dmSearchPath (scriptedClient ''me'') ''42'' [], []),
                (''GET'', ''/channels/42/messages?limit=100'', []),
                (''DELETE'', ''/channels/42/messages/3'', []),
                (''DELETE'', ''/channels/42/messages/1'', [])],
        slept = [Some 350000000, Some 350000000]\<rparr>)"
proof -
  have sc: "httpClient (scriptedClient ''me'') = scripted" by (simp add: scriptedClient_def)
  have search: "request (scriptedClient ''me'') ''GET'' (dmSearchPath (scriptedClient ''me'') ''42'' [])
                  \<lparr>remote = Responded (plainResponse 403) # exampleHistoryRemote, sent = [], slept = []\<rparr>
                = (Returned emptyBody 403,
                   \<lparr>remote = exampleHistoryRemote,
                    sent = [(''GET'', dmSearchPath (scriptedClient ''me'') ''42'' [], [])],
                    slept = []\<rparr>)"
    by (simp add: request_scripted [OF sc] plainResponse_def)
  have step: "SearchDMMessages (Suc 1) (scriptedClient ''me'') ''42''
          \<lparr>remote = Responded (plainResponse 403) # exampleHistoryRemote, sent = [], slept = []\<rparr>
        = iterateAndDeleteChannel 1 (scriptedClient ''me'') ''42''
            \<lparr>remote = exampleHistoryRemote,
             sent = [(''GET'', dmSearchPath (scriptedClient ''me'') ''42'' [], [])], slept = []\<rparr>"
    by (rule dm_search_falls_back [OF search, THEN conjunct2, rule_format]) simp_all
  have two: "(2::nat) = Suc 1" by simp
  show ?thesis
    by (simp only: two step example_history_scan)
qed

text \<open>
  C10, as amended. In the guild walker, a hit of the caller whose message identifier is
  empty, or was seen on this page, or was marked skippable, changes nothing but the
  oldest identifier seen: no request is issued. A hit whose channel identifier is empty
  never leads to a request and still contributes its identifier to the oldest identifier
  seen; it is added to the skippable set when its message identifier is non-empty and
  was not seen on this page before.
\<close>

theorem guild_hit_filter:
  assumes "user_ID (msg_Author msg) = userID c" and "msg_Hit msg"
  shows "(msg_ID msg = [] \<or> msg_ID msg \<in> seenInThisPage st \<or> msg_ID msg \<in> skippedMessageIDs st \<longrightarrow>
            guildHit c msg st w
              = (st\<lparr>oldestHitID := olderSnowflakeID (oldestHitID st) (msg_ID msg)\<rparr>, w))
         \<and> (msg_ChannelID msg = [] \<longrightarrow>
              snd (guildHit c msg st w) = w
              \<and> oldestHitID (fst (guildHit c msg st w))
                  = olderSnowflakeID (oldestHitID st) (msg_ID msg)
              \<and> (msg_ID msg \<noteq> [] \<and> msg_ID msg \<notin> seenInThisPage st \<longrightarrow>
                   msg_ID msg \<in> skippedMessageIDs (fst (guildHit c msg st w))))"
  using assms by (auto simp: guildHit_def Let_def)

theorem guild_hit_filter_witness:
  "guildHit (scriptedClient ''me'') (hitWithoutChannel ''7'') (newPage 0 {''7''})
     \<lparr>remote = [], sent = [], slept = []\<rparr>
   = ((newPage 0 {''7''})\<lparr>oldestHitID := ''7''\<rparr>, \<lparr>remote = [], sent = [], slept = []\<rparr>)
   \<and> guildHit (scriptedClient ''me'') (hitWithoutChannel ''7'') (newPage 0 {})
       \<lparr>remote = [], sent = [], slept = []\<rparr>
     = ((newPage 0 {})\<lparr>oldestHitID := ''7'', seenInThisPage := {''7''},
                        skippedMessageIDs := {''7''}\<rparr>,
        \<lparr>remote = [], sent = [], slept = []\<rparr>)"
proof -
  let ?c = "scriptedClient ''me'' :: outcome list DiscordClient"
  let ?w = "\<lparr>remote = [] :: outcome list, sent = [], slept = []\<rparr>"
  have me: "user_ID (msg_Author (hitWithoutChannel ''7'')) = userID ?c"
    and hit: "msg_Hit (hitWithoutChannel ''7'')"
    by (simp_all add: hitWithoutChannel_def scriptedClient_def)
  have older: "olderSnowflakeID [] ''7'' = ''7''" by (simp add: olderSnowflakeID_def)
  have first: "guildHit ?c (hitWithoutChannel ''7'') (newPage 0 {''7''}) ?w
                 = ((newPage 0 {''7''})\<lparr>oldestHitID := ''7''\<rparr>, ?w)"
    using guild_hit_filter [OF me hit, of "newPage 0 {''7''}" ?w, THEN conjunct1] older
    by (simp add: newPage_def hitWithoutChannel_def)
  have second: "snd (guildHit ?c (hitWithoutChannel ''7'') (newPage 0 {}) ?w) = ?w
      \<and> oldestHitID (fst (guildHit ?c (hitWithoutChannel ''7'') (newPage 0 {}) ?w)) = ''7''
      \<and> ''7'' \<in> skippedMessageIDs (fst (guildHit ?c (hitWithoutChannel ''7'') (newPage 0 {}) ?w))"
    using guild_hit_filter [OF me hit, of "newPage 0 {}" ?w, THEN conjunct2] older
    by (simp add: newPage_def hitWithoutChannel_def)
  have direct: "guildHit ?c (hitWithoutChannel ''7'') (newPage 0 {}) ?w
     = ((newPage 0 {})\<lparr>oldestHitID := ''7'', seenInThisPage := {''7''},
                        skippedMessageIDs := {''7''}\<rparr>, ?w)"
    by (simp add: guildHit_def Let_def hitWithoutChannel_def scriptedClient_def newPage_def older)
  show ?thesis using first second direct by simp
qed

text \<open>
  C10 as stated fails for two kinds of hits without a channel identifier, which the check
  on the message identifier passes over before the channel is looked at: a hit whose
  message identifier is empty, and a hit whose message identifier was already deleted on
  this page. Neither is added to the skippable set.
\<close>

theorem guild_hit_not_skipped_counterexample:
  "skippedMessageIDs (fst (guildHit (scriptedClient ''me'') (hitWithoutChannel []) (newPage 0 {})
      \<lparr>remote = [], sent = [], slept = []\<rparr>)) = {}
   \<and> skippedMessageIDs (fst (guildPage (scriptedClient ''me'')
        [[hitInChannel ''7'' ''42'', hitWithoutChannel ''7'']] (newPage 0 {})
        \<lparr>remote = [Responded (plainResponse 204)], sent = [], slept = []\<rparr>)) = {}"
proof -
  have sc: "httpClient (scriptedClient ''me'') = scripted" by (simp add: scriptedClient_def)
  have older: "olderSnowflakeID [] ''7'' = ''7''" "olderSnowflakeID ''7'' ''7'' = ''7''"
    by (simp_all add: olderSnowflakeID_def ParseUint_def isDigit_def maxUint64_def)
  have a: "skippedMessageIDs (fst (guildHit (scriptedClient ''me'') (hitWithoutChannel []) (newPage 0 {})
      \<lparr>remote = [], sent = [], slept = []\<rparr>)) = {}"
    by (simp add: guildHit_def Let_def hitWithoutChannel_def scriptedClient_def newPage_def)
  have b: "skippedMessageIDs (fst (guildPage (scriptedClient ''me'')
        [[hitInChannel ''7'' ''42'', hitWithoutChannel ''7'']] (newPage 0 {})
        \<lparr>remote = [Responded (plainResponse 204)], sent = [], slept = []\<rparr>)) = {}"
    by (simp add: guildHit_def deleteHit_def Let_def hitWithoutChannel_def hitInChannel_def
          newPage_def older request_scripted [OF sc] plainResponse_def sleep_def time_Sleep_def
          scriptedClient_def [where me = "''me''", THEN arg_cong [where f = userID], simplified])
  show ?thesis using a b by simp
qed

subsection \<open>PurgeOrchestrator\<close>

lemma set_markProcessed [simp]: "set (markProcessed k ks) = insert k (set ks)"
  by (auto simp: markProcessed_def)

lemma distinct_markProcessed [simp]: "distinct ks \<Longrightarrow> distinct (markProcessed k ks)"
  by (auto simp: markProcessed_def)

lemma tidy_other:
  assumes "tidy options st" and "processedDMs st' = processedDMs st"
    and "calls st' = calls st @ [e]"
    and "\<forall>k. e \<noteq> Call_SearchDMMessages k" and "\<forall>k. e \<noteq> Call_iterateAndDeleteChannel k"
    and "\<forall>g. e = Call_SearchGuildMessages g \<longrightarrow> \<not> isGuildExcluded options g"
  shows "tidy options st'"
  using assms unfolding tidy_def by auto

lemma tidy_dm:
  assumes "tidy options st" and "\<not> isDMExcluded options k"
    and "processedDMs st' = markProcessed k (processedDMs st)"
    and "calls st' = calls st @ [Call_SearchDMMessages k]"
  shows "tidy options st'"
  using assms unfolding tidy_def by auto

lemma tidy_dm_fallback:
  assumes "tidy options st" and "\<not> isDMExcluded options k"
    and "processedDMs st' = markProcessed k (processedDMs st)"
    and "calls st' = (calls st @ [Call_SearchDMMessages k]) @ [Call_iterateAndDeleteChannel k]"
  shows "tidy options st'"
  using assms unfolding tidy_def by auto

lemma once_other:
  assumes "once st" and "processedDMs st' = processedDMs st"
    and "calls st' = calls st @ [e]"
    and "\<forall>k. e \<noteq> Call_SearchDMMessages k" and "\<forall>k. e \<noteq> Call_iterateAndDeleteChannel k"
  shows "once st'"
  using assms unfolding once_def by simp

lemma once_dm:
  assumes o: "once st" and fresh: "k \<notin> set (processedDMs st)"
    and p: "processedDMs st' = markProcessed k (processedDMs st)"
    and c: "calls st' = calls st @ [Call_SearchDMMessages k]"
  shows "once st'"
  unfolding once_def
proof (intro conjI allI)
  fix j
  have a: "count_list (calls st) (Call_SearchDMMessages j)
             = (if j \<in> set (processedDMs st) then 1 else 0)"
    and b: "count_list (calls st) (Call_iterateAndDeleteChannel j)
             \<le> (if j \<in> set (processedDMs st) then 1 else 0)"
    using o unfolding once_def by blast+
  show "count_list (calls st') (Call_SearchDMMessages j)
          = (if j \<in> set (processedDMs st') then 1 else 0)"
    using a fresh by (cases "j = k") (simp_all add: p c)
  show "count_list (calls st') (Call_iterateAndDeleteChannel j)
          \<le> (if j \<in> set (processedDMs st') then 1 else 0)"
    using b fresh by (cases "j = k") (simp_all add: p c)
qed

lemma once_dm_fallback:
  assumes o: "once st" and fresh: "k \<notin> set (processedDMs st)"
    and p: "processedDMs st' = markProcessed k (processedDMs st)"
    and c: "calls st' = (calls st @ [Call_SearchDMMessages k]) @ [Call_iterateAndDeleteChannel k]"
  shows "once st'"
  unfolding once_def
proof (intro conjI allI)
  fix j
  have a: "count_list (calls st) (Call_SearchDMMessages j)
             = (if j \<in> set (processedDMs st) then 1 else 0)"
    and b: "count_list (calls st) (Call_iterateAndDeleteChannel j)
             \<le> (if j \<in> set (processedDMs st) then 1 else 0)"
    using o unfolding once_def by blast+
  show "count_list (calls st') (Call_SearchDMMessages j)
          = (if j \<in> set (processedDMs st') then 1 else 0)"
    using a fresh by (cases "j = k") (simp_all add: p c)
  show "count_list (calls st') (Call_iterateAndDeleteChannel j)
          \<le> (if j \<in> set (processedDMs st') then 1 else 0)"
    using b fresh by (cases "j = k") (simp_all add: p c)
qed

lemma tidy_start: "tidy options (startPurge w)"
  by (simp add: tidy_def startPurge_def)

lemma once_start: "once (startPurge w)"
  by (simp add: once_def startPurge_def)

lemma searchGuilds_processed: "processedDMs (searchGuilds ms gs st) = processedDMs st"
  by (induction gs arbitrary: st) (auto simp: Let_def split: prod.splits)

lemma searchGuilds_tidy:
  "tidy options st \<Longrightarrow> \<forall>g \<in> set gs. \<not> isGuildExcluded options (guild_ID g) \<Longrightarrow>
   tidy options (searchGuilds ms gs st)"
proof (induction gs arbitrary: st)
  case Nil
  then show ?case by simp
next
  case (Cons g gs)
  obtain n e w1 where r: "m_SearchGuildMessages ms (guild_ID g) (now st) = ((n, e), w1)"
    by (metis prod.exhaust)
  let ?st1 = "st\<lparr>now := w1,
                   calls := calls st @ [Call_SearchGuildMessages (guild_ID g)],
                   purgeDeleted := purgeDeleted st + n,
                   serverStats := serverStats st @
                     [\<lparr>stat_GuildID = guild_ID g,
                       stat_GuildName = (if guild_Name g = [] then guild_ID g else guild_Name g),
                       stat_Messages = n, stat_Reactions = 0\<rparr>]\<rparr>"
  have "tidy options ?st1"
    using Cons.prems(2)
    by (intro tidy_other [OF Cons.prems(1), where e = "Call_SearchGuildMessages (guild_ID g)"])
       simp_all
  then have "tidy options (searchGuilds ms gs ?st1)"
    using Cons.prems by (intro Cons.IH) auto
  then show ?case by (simp add: r Let_def)
qed

lemma searchGuilds_once: "once st \<Longrightarrow> once (searchGuilds ms gs st)"
proof (induction gs arbitrary: st)
  case Nil
  then show ?case by simp
next
  case (Cons g gs)
  obtain n e w1 where r: "m_SearchGuildMessages ms (guild_ID g) (now st) = ((n, e), w1)"
    by (metis prod.exhaust)
  let ?st1 = "st\<lparr>now := w1,
                   calls := calls st @ [Call_SearchGuildMessages (guild_ID g)],
                   purgeDeleted := purgeDeleted st + n,
                   serverStats := serverStats st @
                     [\<lparr>stat_GuildID = guild_ID g,
                       stat_GuildName = (if guild_Name g = [] then guild_ID g else guild_Name g),
                       stat_Messages = n, stat_Reactions = 0\<rparr>]\<rparr>"
  have "once ?st1"
    by (intro once_other [OF Cons.prems, where e = "Call_SearchGuildMessages (guild_ID g)"])
       simp_all
  then have "once (searchGuilds ms gs ?st1)" by (rule Cons.IH)
  then show ?case by (simp add: r Let_def)
qed

lemma not_excluded_when_empty:
  "ExcludedGuildIDs options = [] \<Longrightarrow> \<not> isGuildExcluded options g"
  "ExcludedDMChannelIDs options = [] \<Longrightarrow> \<not> isDMExcluded options k"
  by (simp_all add: isGuildExcluded_def isDMExcluded_def)

lemma phase1_processed: "processedDMs (phase1 ms options st) = processedDMs st"
  by (auto simp: phase1_def searchGuilds_processed Let_def split: prod.splits option.splits)

lemma phase1_tidy: "tidy options st \<Longrightarrow> tidy options (phase1 ms options st)"
proof -
  assume t: "tidy options st"
  obtain found e w1 where r: "m_GetAllGuilds ms (now st) = ((found, e), w1)"
    by (metis prod.exhaust)
  have base: "tidy options (st\<lparr>now := w1, calls := calls st @ [Call_GetAllGuilds], guilds := gs\<rparr>)"
    for gs using t by (auto simp: tidy_def)
  show ?thesis
  proof (cases e)
    case (Some err)
    then show ?thesis using base by (simp add: phase1_def r)
  next
    case None
    let ?filtered = "if length (ExcludedGuildIDs options) > 0
                  then filter (\<lambda>guild. \<not> isGuildExcluded options (guild_ID guild)) found
                  else found"
    have "\<forall>g \<in> set ?filtered. \<not> isGuildExcluded options (guild_ID g)"
      by (auto simp: not_excluded_when_empty)
    then have "tidy options (searchGuilds ms ?filtered
        (st\<lparr>now := w1, calls := calls st @ [Call_GetAllGuilds], guilds := ?filtered\<rparr>))"
      by (intro searchGuilds_tidy base)
    then show ?thesis using None by (simp add: phase1_def r Let_def)
  qed
qed

lemma phase1_once: "once st \<Longrightarrow> once (phase1 ms options st)"
proof -
  assume t: "once st"
  obtain found e w1 where r: "m_GetAllGuilds ms (now st) = ((found, e), w1)"
    by (metis prod.exhaust)
  have base: "once (st\<lparr>now := w1, calls := calls st @ [Call_GetAllGuilds], guilds := gs\<rparr>)"
    for gs using t by (auto simp: once_def)
  show ?thesis
    using base by (cases e) (simp_all add: phase1_def r Let_def searchGuilds_once)
qed

lemma searchOpenDMs_tidy:
  "tidy options st \<Longrightarrow> \<forall>ch \<in> set chs. \<not> isDMExcluded options (chan_ID ch) \<Longrightarrow>
   tidy options (searchOpenDMs ms chs st)"
proof (induction chs arbitrary: st)
  case Nil
  then show ?case by simp
next
  case (Cons ch chs)
  obtain n e w1 where r: "m_SearchDMMessages ms (chan_ID ch) (now st) = ((n, e), w1)"
    by (metis prod.exhaust)
  let ?st1 = "st\<lparr>now := w1,
                calls := calls st @ [Call_SearchDMMessages (chan_ID ch)],
                processedDMs := markProcessed (chan_ID ch) (processedDMs st),
                totalDMMessages := totalDMMessages st + n,
                purgeDeleted := purgeDeleted st + n\<rparr>"
  have "tidy options ?st1"
    using Cons.prems(2) by (intro tidy_dm [OF Cons.prems(1), of "chan_ID ch"]) simp_all
  then have "tidy options (searchOpenDMs ms chs ?st1)"
    using Cons.prems by (intro Cons.IH) auto
  then show ?case by (simp add: r)
qed

lemma searchOpenDMs_once:
  "once st \<Longrightarrow> distinct (map chan_ID chs) \<Longrightarrow>
   \<forall>ch \<in> set chs. chan_ID ch \<notin> set (processedDMs st) \<Longrightarrow>
   once (searchOpenDMs ms chs st)"
proof (induction chs arbitrary: st)
  case Nil
  then show ?case by simp
next
  case (Cons ch chs)
  obtain n e w1 where r: "m_SearchDMMessages ms (chan_ID ch) (now st) = ((n, e), w1)"
    by (metis prod.exhaust)
  let ?st1 = "st\<lparr>now := w1,
                calls := calls st @ [Call_SearchDMMessages (chan_ID ch)],
                processedDMs := markProcessed (chan_ID ch) (processedDMs st),
                totalDMMessages := totalDMMessages st + n,
                purgeDeleted := purgeDeleted st + n\<rparr>"
  have fresh: "chan_ID ch \<notin> set (processedDMs st)" using Cons.prems(3) by simp
  have "once ?st1"
    by (intro once_dm [OF Cons.prems(1) fresh]) simp_all
  moreover have "distinct (map chan_ID chs)" using Cons.prems(2) by simp
  moreover have "\<forall>c \<in> set chs. chan_ID c \<notin> set (processedDMs ?st1)"
  proof
    fix c assume c: "c \<in> set chs"
    then have "chan_ID c \<noteq> chan_ID ch" using Cons.prems(2) by (auto simp: image_iff)
    moreover have "chan_ID c \<notin> set (processedDMs st)" using Cons.prems(3) c by simp
    ultimately show "chan_ID c \<notin> set (processedDMs ?st1)" by simp
  qed
  ultimately have "once (searchOpenDMs ms chs ?st1)" by (rule Cons.IH)
  then show ?case by (simp add: r)
qed

lemma phase2a_tidy: "tidy options st \<Longrightarrow> tidy options (phase2a ms options st)"
proof -
  assume t: "tidy options st"
  obtain channels e w1 where r: "m_GetDMChannels ms (now st) = ((channels, e), w1)"
    by (metis prod.exhaust)
  have base: "tidy options (st\<lparr>now := w1, calls := calls st @ [Call_GetDMChannels]\<rparr>)"
    by (rule tidy_other [OF t, where e = Call_GetDMChannels]) simp_all
  show ?thesis
  proof (cases e)
    case (Some err)
    then show ?thesis using base by (simp add: phase2a_def r)
  next
    case None
    let ?todo = "if length (ExcludedDMChannelIDs options) > 0
                  then filter (\<lambda>ch. \<not> isDMExcluded options (chan_ID ch)) channels
                  else channels"
    have "\<forall>ch \<in> set ?todo. \<not> isDMExcluded options (chan_ID ch)"
      by (auto simp: not_excluded_when_empty)
    then have "tidy options (searchOpenDMs ms ?todo
        (st\<lparr>now := w1, calls := calls st @ [Call_GetDMChannels]\<rparr>))"
      by (intro searchOpenDMs_tidy base)
    then show ?thesis using None by (simp add: phase2a_def r Let_def)
  qed
qed

lemma phase2a_once:
  assumes t: "once st" and fresh: "processedDMs st = []"
    and d: "\<forall>channels. fst (m_GetDMChannels ms (now st)) = (channels, None)
              \<longrightarrow> distinct (map chan_ID channels)"
  shows "once (phase2a ms options st)"
proof -
  obtain channels e w1 where r: "m_GetDMChannels ms (now st) = ((channels, e), w1)"
    by (metis prod.exhaust)
  have base: "once (st\<lparr>now := w1, calls := calls st @ [Call_GetDMChannels]\<rparr>)"
    by (rule once_other [OF t, where e = Call_GetDMChannels]) simp_all
  show ?thesis
  proof (cases e)
    case (Some err)
    then show ?thesis using base by (simp add: phase2a_def r)
  next
    case None
    let ?todo = "if length (ExcludedDMChannelIDs options) > 0
                  then filter (\<lambda>ch. \<not> isDMExcluded options (chan_ID ch)) channels
                  else channels"
    have "distinct (map chan_ID channels)" using d r None by simp
    then have "distinct (map chan_ID ?todo)" by (simp add: distinct_map_filter)
    then have "once (searchOpenDMs ms ?todo
        (st\<lparr>now := w1, calls := calls st @ [Call_GetDMChannels]\<rparr>))"
      using fresh by (intro searchOpenDMs_once base) auto
    then show ?thesis using None by (simp add: phase2a_def r Let_def)
  qed
qed

lemma searchHiddenDMs_tidy:
  "tidy options st \<Longrightarrow> tidy options (searchHiddenDMs ms options rels st)"
proof (induction rels arbitrary: st)
  case Nil
  then show ?case by simp
next
  case (Cons rel rels)
  obtain opened w1 where r: "m_OpenDMChannel ms (user_ID (rel_User rel)) (now st) = (opened, w1)"
    by (metis prod.exhaust)
  let ?st1 = "st\<lparr>now := w1,
                   calls := calls st @ [Call_OpenDMChannel (user_ID (rel_User rel))]\<rparr>"
  have t1: "tidy options ?st1"
    by (rule tidy_other [OF Cons.prems, where e = "Call_OpenDMChannel (user_ID (rel_User rel))"])
       simp_all
  show ?case
  proof (cases opened)
    case (Inl err)
    then show ?thesis using Cons.IH [OF t1] by (simp add: r Let_def)
  next
    case (Inr ch)
    obtain n e w2 where s: "m_SearchDMMessages ms (chan_ID ch) w1 = ((n, e), w2)"
      by (metis prod.exhaust)
    let ?st2 = "?st1\<lparr>now := sleep 500 w2,
                      calls := calls ?st1 @ [Call_SearchDMMessages (chan_ID ch)],
                      processedDMs := markProcessed (chan_ID ch) (processedDMs ?st1),
                      totalDMMessages := totalDMMessages ?st1 + n,
                      purgeDeleted := purgeDeleted ?st1 + n\<rparr>"
    have "\<not> isDMExcluded options (chan_ID ch) \<Longrightarrow> tidy options ?st2"
      by (rule tidy_dm [OF t1, of "chan_ID ch"]) simp_all
    then have "\<not> isDMExcluded options (chan_ID ch) \<Longrightarrow>
               tidy options (searchHiddenDMs ms options rels ?st2)"
      by (rule Cons.IH)
    then show ?thesis
      using Inr Cons.IH [OF t1] by (simp add: r s Let_def)
  qed
qed

lemma searchHiddenDMs_once:
  "once st \<Longrightarrow> once (searchHiddenDMs ms options rels st)"
proof (induction rels arbitrary: st)
  case Nil
  then show ?case by simp
next
  case (Cons rel rels)
  obtain opened w1 where r: "m_OpenDMChannel ms (user_ID (rel_User rel)) (now st) = (opened, w1)"
    by (metis prod.exhaust)
  let ?st1 = "st\<lparr>now := w1,
                   calls := calls st @ [Call_OpenDMChannel (user_ID (rel_User rel))]\<rparr>"
  have o1: "once ?st1"
    by (rule once_other [OF Cons.prems, where e = "Call_OpenDMChannel (user_ID (rel_User rel))"])
       simp_all
  show ?case
  proof (cases opened)
    case (Inl err)
    then show ?thesis using Cons.IH [OF o1] by (simp add: r Let_def)
  next
    case (Inr ch)
    obtain n e w2 where s: "m_SearchDMMessages ms (chan_ID ch) w1 = ((n, e), w2)"
      by (metis prod.exhaust)
    let ?st2 = "?st1\<lparr>now := sleep 500 w2,
                      calls := calls ?st1 @ [Call_SearchDMMessages (chan_ID ch)],
                      processedDMs := markProcessed (chan_ID ch) (processedDMs ?st1),
                      totalDMMessages := totalDMMessages ?st1 + n,
                      purgeDeleted := purgeDeleted ?st1 + n\<rparr>"
    have "chan_ID ch \<notin> set (processedDMs st) \<Longrightarrow> once ?st2"
      by (rule once_dm [OF o1, of "chan_ID ch"]) simp_all
    then have "chan_ID ch \<notin> set (processedDMs st) \<Longrightarrow>
               once (searchHiddenDMs ms options rels ?st2)"
      by (rule Cons.IH)
    then show ?thesis
      using Inr Cons.IH [OF o1] by (simp add: r s Let_def)
  qed
qed

lemma phase2b_tidy: "tidy options st \<Longrightarrow> tidy options (phase2b ms options st)"
proof -
  assume t: "tidy options st"
  obtain rels e w1 where r: "m_GetRelationships ms (now st) = ((rels, e), w1)"
    by (metis prod.exhaust)
  have "tidy options (st\<lparr>now := w1, calls := calls st @ [Call_GetRelationships]\<rparr>)"
    by (rule tidy_other [OF t, where e = Call_GetRelationships]) simp_all
  then show ?thesis
    by (cases e) (simp_all add: phase2b_def r searchHiddenDMs_tidy)
qed

lemma phase2b_once: "once st \<Longrightarrow> once (phase2b ms options st)"
proof -
  assume t: "once st"
  obtain rels e w1 where r: "m_GetRelationships ms (now st) = ((rels, e), w1)"
    by (metis prod.exhaust)
  have "once (st\<lparr>now := w1, calls := calls st @ [Call_GetRelationships]\<rparr>)"
    by (rule once_other [OF t, where e = Call_GetRelationships]) simp_all
  then show ?thesis
    by (cases e) (simp_all add: phase2b_def r searchHiddenDMs_once)
qed

lemma searchPackageDMs_tidy:
  "tidy options st \<Longrightarrow> tidy options (searchPackageDMs ms options ids st)"
proof (induction ids arbitrary: st)
  case Nil
  then show ?case by simp
next
  case (Cons k ids)
  obtain n e w1 where r: "m_SearchDMMessages ms k (now st) = ((n, e), w1)"
    by (metis prod.exhaust)
  obtain n2 e2 w2 where s: "m_iterateAndDeleteChannel ms k w1 = ((n2, e2), w2)"
    by (metis prod.exhaust)
  let ?st1 = "st\<lparr>now := w1, calls := calls st @ [Call_SearchDMMessages k],
                  processedDMs := markProcessed k (processedDMs st)\<rparr>"
  let ?ok = "?st1\<lparr>totalDMMessages := totalDMMessages ?st1 + n,
                    purgeDeleted := purgeDeleted ?st1 + n\<rparr>"
  let ?fb = "?st1\<lparr>now := w2,
                    calls := calls ?st1 @ [Call_iterateAndDeleteChannel k],
                    totalDMMessages := totalDMMessages ?st1 + n2,
                    purgeDeleted := purgeDeleted ?st1 + n2\<rparr>"
  have ok: "\<not> isDMExcluded options k \<Longrightarrow> tidy options ?ok"
    by (rule tidy_dm [OF Cons.prems, of k]) simp_all
  have fb: "\<not> isDMExcluded options k \<Longrightarrow> tidy options ?fb"
    by (rule tidy_dm_fallback [OF Cons.prems, of k]) simp_all
  show ?case
    using Cons.IH [OF Cons.prems] Cons.IH [OF ok] Cons.IH [OF fb]
    by (cases e) (simp_all add: r s Let_def)
qed

lemma searchPackageDMs_once:
  "once st \<Longrightarrow> once (searchPackageDMs ms options ids st)"
proof (induction ids arbitrary: st)
  case Nil
  then show ?case by simp
next
  case (Cons k ids)
  obtain n e w1 where r: "m_SearchDMMessages ms k (now st) = ((n, e), w1)"
    by (metis prod.exhaust)
  obtain n2 e2 w2 where s: "m_iterateAndDeleteChannel ms k w1 = ((n2, e2), w2)"
    by (metis prod.exhaust)
  let ?st1 = "st\<lparr>now := w1, calls := calls st @ [Call_SearchDMMessages k],
                  processedDMs := markProcessed k (processedDMs st)\<rparr>"
  let ?ok = "?st1\<lparr>totalDMMessages := totalDMMessages ?st1 + n,
                    purgeDeleted := purgeDeleted ?st1 + n\<rparr>"
  let ?fb = "?st1\<lparr>now := w2,
                    calls := calls ?st1 @ [Call_iterateAndDeleteChannel k],
                    totalDMMessages := totalDMMessages ?st1 + n2,
                    purgeDeleted := purgeDeleted ?st1 + n2\<rparr>"
  have ok: "k \<notin> set (processedDMs st) \<Longrightarrow> once ?ok"
    by (rule once_dm [OF Cons.prems, of k]) simp_all
  have fb: "k \<notin> set (processedDMs st) \<Longrightarrow> once ?fb"
    by (rule once_dm_fallback [OF Cons.prems, of k]) simp_all
  show ?case
    using Cons.IH [OF Cons.prems] Cons.IH [OF ok] Cons.IH [OF fb]
    by (cases e) (simp_all add: r s Let_def)
qed

lemma phase2c_tidy: "tidy options st \<Longrightarrow> tidy options (phase2c ms path options st)"
proof -
  assume t: "tidy options st"
  obtain ids e w1 where r: "m_LoadDataPackageChannelIDs ms path (now st) = ((ids, e), w1)"
    by (metis prod.exhaust)
  have "tidy options
          (st\<lparr>now := w1, calls := calls st @ [Call_LoadDataPackageChannelIDs path]\<rparr>)"
    by (rule tidy_other [OF t, where e = "Call_LoadDataPackageChannelIDs path"]) simp_all
  then show ?thesis
    using t by (cases e) (simp_all add: phase2c_def r searchPackageDMs_tidy)
qed

lemma phase2c_once: "once st \<Longrightarrow> once (phase2c ms path options st)"
proof -
  assume t: "once st"
  obtain ids e w1 where r: "m_LoadDataPackageChannelIDs ms path (now st) = ((ids, e), w1)"
    by (metis prod.exhaust)
  have "once (st\<lparr>now := w1, calls := calls st @ [Call_LoadDataPackageChannelIDs path]\<rparr>)"
    by (rule once_other [OF t, where e = "Call_LoadDataPackageChannelIDs path"]) simp_all
  then show ?thesis
    using t by (cases e) (simp_all add: phase2c_def r searchPackageDMs_once)
qed

lemma messagePhases_tidy: "tidy options (messagePhases ms path options w)"
  unfolding messagePhases_def
  by (intro phase2c_tidy phase2b_tidy phase2a_tidy phase1_tidy tidy_start)

text \<open>The world in which phase 2a asks for the open conversations.\<close>

lemma messagePhases_once:
  assumes "\<forall>channels.
     fst (m_GetDMChannels ms (now (phase1 ms options (startPurge w)))) = (channels, None)
       \<longrightarrow> distinct (map chan_ID channels)"
  shows "once (messagePhases ms path options w)"
  unfolding messagePhases_def
proof (intro phase2c_once phase2b_once phase2a_once phase1_once once_start)
  show "processedDMs (phase1 ms options (startPurge w)) = []"
    by (simp add: phase1_processed startPurge_def)
  show "\<forall>channels.
     fst (m_GetDMChannels ms (now (phase1 ms options (startPurge w)))) = (channels, None)
       \<longrightarrow> distinct (map chan_ID channels)"
    by (rule assms)
qed

lemma sweepChannels_calls:
  "calls (snd (sweepChannels ms ids n st)) = calls st @ map Call_removeReactionsFromChannel ids"
  by (induction ids arbitrary: n st) (auto split: prod.splits)

lemma sweepChannels_processed:
  "processedDMs (snd (sweepChannels ms ids n st)) = processedDMs st"
  by (induction ids arbitrary: n st) (auto split: prod.splits)

lemma sweepGuilds_processed: "processedDMs (sweepGuilds ms gs st) = processedDMs st"
proof (induction gs arbitrary: st)
  case Nil
  then show ?case by simp
next
  case (Cons g gs)
  obtain ids w1 where d: "m_discoverAllGuildChannelsAndThreads ms (guild_ID g) (now st) = (ids, w1)"
    by (metis prod.exhaust)
  let ?st0 = "st\<lparr>now := w1,
                  calls := calls st @ [Call_discoverAllGuildChannelsAndThreads (guild_ID g)]\<rparr>"
  obtain n st1 where r: "sweepChannels ms ids 0 ?st0 = (n, st1)"
    by (metis prod.exhaust)
  have "processedDMs st1 = processedDMs st"
    using sweepChannels_processed [of ms ids 0 ?st0] by (simp add: r)
  then show ?case by (simp add: d r Cons.IH)
qed

lemma phase3a_processed: "processedDMs (phase3a ms st) = processedDMs st"
  by (simp add: phase3a_def sweepGuilds_processed)

lemma phase3b_calls:
  "calls (phase3b ms st) = calls st @ map Call_removeReactionsFromChannel (processedDMs st)"
proof -
  obtain n st1 where r: "sweepChannels ms (processedDMs st) 0 st = (n, st1)"
    by (metis prod.exhaust)
  show ?thesis
    using sweepChannels_calls [of ms "processedDMs st" 0 st] by (simp add: phase3b_def r)
qed

lemmas example_defs =
  messagePhases_def phase1_def phase2a_def phase2b_def phase2c_def startPurge_def
  exampleMethods_def exampleOptions_def quiet_def dm_def related_def
  isGuildExcluded_def isDMExcluded_def markProcessed_def sleep_def time_Sleep_def Let_def

lemma example_messagePhases:
  "calls (messagePhases exampleMethods ''package'' exampleOptions quiet)
     = [Call_GetAllGuilds, Call_SearchGuildMessages ''H'',
        Call_GetDMChannels, Call_SearchDMMessages ''B'',
        Call_GetRelationships, Call_OpenDMChannel ''ua'', Call_OpenDMChannel ''ub'',
        Call_OpenDMChannel ''uc'', Call_SearchDMMessages ''C'',
        Call_LoadDataPackageChannelIDs ''package'', Call_SearchDMMessages ''D'']"
  "processedDMs (messagePhases exampleMethods ''package'' exampleOptions quiet)
     = [''B'', ''C'', ''D'']"
  "guilds (messagePhases exampleMethods ''package'' exampleOptions quiet)
     = [\<lparr>guild_ID = ''H'', guild_Name = []\<rparr>]"
  by (simp_all add: example_defs)

lemma example_PurgeAll:
  "calls (snd (PurgeAll exampleMethods ''package'' exampleOptions quiet))
     = [Call_GetAllGuilds, Call_SearchGuildMessages ''H'',
        Call_GetDMChannels, Call_SearchDMMessages ''B'',
        Call_GetRelationships, Call_OpenDMChannel ''ua'', Call_OpenDMChannel ''ub'',
        Call_OpenDMChannel ''uc'', Call_SearchDMMessages ''C'',
        Call_LoadDataPackageChannelIDs ''package'', Call_SearchDMMessages ''D'',
        Call_discoverAllGuildChannelsAndThreads ''H'',
        Call_removeReactionsFromChannel ''H-general'',
        Call_removeReactionsFromChannel ''B'', Call_removeReactionsFromChannel ''C'',
        Call_removeReactionsFromChannel ''D'']"
  by (simp add: PurgeAll_def phase3a_def phase3b_def example_defs)

lemma example_repeating:
  "count_list (calls (messagePhases repeatingMethods ''package'' exampleOptions quiet))
     (Call_SearchDMMessages ''B'') = 2"
  by (simp add: repeatingMethods_def example_defs)

lemma count_list_distinct:
  "distinct xs \<Longrightarrow> count_list xs x = (if x \<in> set xs then 1 else 0)"
  by (induction xs) auto

lemma example_search_refused:
  "SearchDMMessages 2 (scriptedClient ''me'') ''42'' packageRemote
   = Some ((2, None),
       \<lparr>remote = [],
        sent = [(''GET'', dmSearchPath (scriptedClient ''me'') ''42'' [], []),
                (''GET'', ''/channels/42/messages?limit=100'', []),
                (''DELETE'', ''/channels/42/messages/3'', []),
                (''DELETE'', ''/channels/42/messages/1'', [])],
        slept = [Some 350000000, Some 350000000]\<rparr>)"
proof -
  have sc: "httpClient (scriptedClient ''me'') = scripted" by (simp add: scriptedClient_def)
  have search: "request (scriptedClient ''me'') ''GET'' (dmSearchPath (scriptedClient ''me'') ''42'' [])
                  \<lparr>remote = Responded (plainResponse 403) # exampleHistoryRemote, sent = [], slept = []\<rparr>
                = (Returned emptyBody 403,
                   \<lparr>remote = exampleHistoryRemote,
                    sent = [(''GET'', dmSearchPath (scriptedClient ''me'') ''42'' [], [])],
                    slept = []\<rparr>)"
    by (simp add: request_scripted [OF sc] plainResponse_def)
  have two: "(2::nat) = Suc 1" by simp
  show ?thesis
    unfolding packageRemote_def SearchDMMessages_def two
    by (simp only: SearchDMLoop.simps search)
       (simp add: example_history_scan [unfolded One_nat_def])
qed

text \<open>
  What the phases that delete messages do keep to, whatever the client's methods
  return: the guild walker is never called on an excluded guild, and neither the
  conversation walker nor the history scan is called on an excluded conversation.
\<close>

lemma excluded_never_walked:
  "(isGuildExcluded options g \<longrightarrow>
      Call_SearchGuildMessages g \<notin> set (calls (messagePhases ms path options w)))
   \<and> (isDMExcluded options k \<longrightarrow>
        Call_SearchDMMessages k \<notin> set (calls (messagePhases ms path options w))
        \<and> Call_iterateAndDeleteChannel k \<notin> set (calls (messagePhases ms path options w)))"
  using messagePhases_tidy [of options ms path w] unfolding tidy_def by blast

text \<open>
  C7. The claim fails for an excluded guild in phase 2c. That phase walks every channel
  identifier of the data package and tests the conversation exclusion only, so a channel
  of an excluded guild that the package lists is handed to the conversation walker; when
  the search in it is refused, the walker falls back to the history scan, which deletes
  the caller's messages there. Phase 1 does leave the excluded guild out, and the program
  announces that excluded items are skipped during message deletion. In the run below
  the guild \<open>G\<close> is excluded, \<open>42\<close> is its channel and the data package lists it: the
  guild walker is not called, and two delete requests are sent in \<open>42\<close>.
\<close>

theorem excluded_guild_channel_purged:
  "isGuildExcluded guildExcluded ''G''
   \<and> fst (m_discoverAllGuildChannelsAndThreads packageMethods ''G'' packageRemote) = [''42'']
   \<and> fst (m_LoadDataPackageChannelIDs packageMethods ''package'' packageRemote) = ([''42''], None)
   \<and> calls (messagePhases packageMethods ''package'' guildExcluded packageRemote)
       = [Call_GetAllGuilds, Call_GetDMChannels, Call_GetRelationships,
          Call_LoadDataPackageChannelIDs ''package'', Call_SearchDMMessages ''42'']
   \<and> sent (now (messagePhases packageMethods ''package'' guildExcluded packageRemote))
       = [(''GET'', dmSearchPath (scriptedClient ''me'') ''42'' [], []),
          (''GET'', ''/channels/42/messages?limit=100'', []),
          (''DELETE'', ''/channels/42/messages/3'', []),
          (''DELETE'', ''/channels/42/messages/1'', [])]
   \<and> purgeDeleted (messagePhases packageMethods ''package'' guildExcluded packageRemote) = 2"
  by (simp add: messagePhases_def phase1_def phase2a_def phase2b_def phase2c_def startPurge_def
        packageMethods_def withWalkers_def guildExcluded_def isGuildExcluded_def isDMExcluded_def
        markProcessed_def example_search_refused)

text \<open>
  C1, as amended. Phase 3b calls \<^verbatim>\<open>removeReactionsFromChannel\<close> on every key that
  \<^verbatim>\<open>processedDMs\<close> holds at the end of phases 2a to 2c, and on nothing else. No key of
  \<^verbatim>\<open>processedDMs\<close> is an excluded conversation: all three phases test the exclusion
  before they mark a conversation as processed.
\<close>

theorem dm_reaction_sweep:
  "calls (snd (PurgeAll ms path options w))
     = calls (phase3a ms (messagePhases ms path options w))
       @ map Call_removeReactionsFromChannel (processedDMs (messagePhases ms path options w))
   \<and> (\<forall>k \<in> set (processedDMs (messagePhases ms path options w)). \<not> isDMExcluded options k)"
proof
  show "calls (snd (PurgeAll ms path options w))
     = calls (phase3a ms (messagePhases ms path options w))
       @ map Call_removeReactionsFromChannel (processedDMs (messagePhases ms path options w))"
    by (simp add: PurgeAll_def Let_def phase3b_calls phase3a_processed)
  show "\<forall>k \<in> set (processedDMs (messagePhases ms path options w)). \<not> isDMExcluded options k"
    using messagePhases_tidy [of options ms path w] unfolding tidy_def by blast
qed

theorem dm_reaction_sweep_witness:
  "calls (snd (PurgeAll exampleMethods ''package'' exampleOptions quiet))
     = calls (phase3a exampleMethods (messagePhases exampleMethods ''package'' exampleOptions quiet))
       @ [Call_removeReactionsFromChannel ''B'', Call_removeReactionsFromChannel ''C'',
          Call_removeReactionsFromChannel ''D'']
   \<and> \<not> isDMExcluded exampleOptions ''B'' \<and> \<not> isDMExcluded exampleOptions ''C''
   \<and> \<not> isDMExcluded exampleOptions ''D''"
  using dm_reaction_sweep [of exampleMethods "''package''" exampleOptions quiet]
  by (simp add: example_messagePhases)

text \<open>
  C1 as stated fails in its second half: the conversation \<open>A\<close> is listed among the open
  conversations, is opened again for a relationship and is listed in the data package,
  but it is excluded, and phase 3b does not sweep it.
\<close>

theorem excluded_dm_not_swept_counterexample:
  "dm ''A'' \<in> set (fst (fst (m_GetDMChannels exampleMethods quiet)))
   \<and> m_OpenDMChannel exampleMethods ''ua'' quiet = (Inr (dm ''A''), quiet)
   \<and> ''A'' \<in> set (fst (fst (m_LoadDataPackageChannelIDs exampleMethods ''package'' quiet)))
   \<and> isDMExcluded exampleOptions ''A''
   \<and> Call_removeReactionsFromChannel ''A''
        \<notin> set (calls (snd (PurgeAll exampleMethods ''package'' exampleOptions quiet)))"
  by (simp add: example_PurgeAll)
     (simp add: exampleMethods_def isDMExcluded_def exampleOptions_def)

lemma count_list_sweeps:
  "count_list (map Call_removeReactionsFromChannel ks) (Call_removeReactionsFromChannel k)
     = count_list ks k"
  by (induction ks) auto

text \<open>
  C6, as amended. Provided the list of open conversations that phase 2a receives does
  not name a conversation twice, the conversation walker is called at most once on any
  conversation across phases 2a to 2c, and so is the history scan of phase 2c. A
  conversation is a key of \<^verbatim>\<open>processedDMs\<close> as often as the walker was called on it: once
  if it was, not at all otherwise, and never if it is excluded. Phase 3b sweeps it as
  often as it is a key.
\<close>

theorem dm_deduplication:
  assumes "\<forall>channels.
     fst (m_GetDMChannels ms (now (phase1 ms options (startPurge w)))) = (channels, None)
       \<longrightarrow> distinct (map chan_ID channels)"
  shows "count_list (calls (messagePhases ms path options w)) (Call_SearchDMMessages k) \<le> 1
     \<and> count_list (calls (messagePhases ms path options w)) (Call_iterateAndDeleteChannel k) \<le> 1
     \<and> count_list (processedDMs (messagePhases ms path options w)) k
         = count_list (calls (messagePhases ms path options w)) (Call_SearchDMMessages k)
     \<and> (isDMExcluded options k \<longrightarrow>
          count_list (processedDMs (messagePhases ms path options w)) k = 0)
     \<and> count_list (calls (snd (PurgeAll ms path options w))) (Call_removeReactionsFromChannel k)
         = count_list (calls (phase3a ms (messagePhases ms path options w)))
             (Call_removeReactionsFromChannel k)
           + count_list (processedDMs (messagePhases ms path options w)) k"
proof -
  let ?st = "messagePhases ms path options w"
  have t: "tidy options ?st" by (rule messagePhases_tidy)
  have o: "once ?st" using assms by (rule messagePhases_once)
  have d: "distinct (processedDMs ?st)" using t unfolding tidy_def by blast
  have p: "count_list (processedDMs ?st) k = (if k \<in> set (processedDMs ?st) then 1 else 0)"
    using d by (rule count_list_distinct)
  have s: "count_list (calls ?st) (Call_SearchDMMessages k)
             = (if k \<in> set (processedDMs ?st) then 1 else 0)"
    and i: "count_list (calls ?st) (Call_iterateAndDeleteChannel k)
             \<le> (if k \<in> set (processedDMs ?st) then 1 else 0)"
    using o unfolding once_def by blast+
  have x: "isDMExcluded options k \<Longrightarrow> k \<notin> set (processedDMs ?st)"
    using t unfolding tidy_def by blast
  have c: "count_list (calls (snd (PurgeAll ms path options w))) (Call_removeReactionsFromChannel k)
         = count_list (calls (phase3a ms ?st)) (Call_removeReactionsFromChannel k)
           + count_list (processedDMs ?st) k"
    by (simp add: PurgeAll_def Let_def phase3b_calls phase3a_processed count_list_sweeps)
  show ?thesis
    using p s i x c by (simp split: if_splits)
qed

theorem dm_deduplication_witness:
  "count_list (calls (messagePhases exampleMethods ''package'' exampleOptions quiet))
     (Call_SearchDMMessages ''B'') = 1
   \<and> count_list (processedDMs (messagePhases exampleMethods ''package'' exampleOptions quiet))
       ''B'' = 1
   \<and> count_list (calls (snd (PurgeAll exampleMethods ''package'' exampleOptions quiet)))
       (Call_removeReactionsFromChannel ''B'') = 1
   \<and> isDMExcluded exampleOptions ''A''
   \<and> count_list (processedDMs (messagePhases exampleMethods ''package'' exampleOptions quiet))
       ''A'' = 0"
proof -
  have listed: "\<forall>channels.
      fst (m_GetDMChannels exampleMethods
             (now (phase1 exampleMethods exampleOptions (startPurge quiet)))) = (channels, None)
        \<longrightarrow> distinct (map chan_ID channels)"
    by (auto simp: exampleMethods_def dm_def)
  have excluded: "isDMExcluded exampleOptions ''A''"
    by (simp add: isDMExcluded_def exampleOptions_def)
  show ?thesis
    using dm_deduplication [OF listed, of "''package''" "''B''"]
      dm_deduplication [OF listed, of "''package''" "''A''"] excluded
    by (simp add: example_messagePhases example_PurgeAll)
qed

text \<open>
  C6 as stated fails twice. The excluded conversation \<open>A\<close> appears among the open
  conversations and in the data package, and phase 3b sweeps it not once but never. And
  phase 2a does not consult \<^verbatim>\<open>processedDMs\<close>: when the list of open conversations names
  \<open>B\<close> twice, the walker is called on \<open>B\<close> twice.
\<close>

theorem dm_deduplication_counterexample:
  "dm ''A'' \<in> set (fst (fst (m_GetDMChannels exampleMethods quiet)))
   \<and> ''A'' \<in> set (fst (fst (m_LoadDataPackageChannelIDs exampleMethods ''package'' quiet)))
   \<and> count_list (calls (snd (PurgeAll exampleMethods ''package'' exampleOptions quiet)))
       (Call_removeReactionsFromChannel ''A'') = 0
   \<and> fst (fst (m_GetDMChannels repeatingMethods quiet)) = [dm ''B'', dm ''B'']
   \<and> m_OpenDMChannel repeatingMethods ''ub'' quiet = (Inr (dm ''B''), quiet)
   \<and> count_list (calls (messagePhases repeatingMethods ''package'' exampleOptions quiet))
       (Call_SearchDMMessages ''B'') = 2"
  by (simp add: example_PurgeAll example_repeating)
     (simp add: exampleMethods_def repeatingMethods_def)

end
